theory Spec2Isabelle
  imports Complex_Main "HOL-Library.Sublist" "HOL-Library.AList"
begin

section \<open>JavaScript strings\<close>

text \<open>
  A JavaScript string is modelled as a \<^typ>\<open>string\<close>: one \<^typ>\<open>char\<close> per code unit,
  for texts whose code units lie in the Latin-1 range (U+0000 to U+00FF). On that range
  \<^verbatim>\<open>String.prototype.trim\<close> and the regular expression class \<^verbatim>\<open>\s\<close> strip
  TAB, LF, VT, FF, CR, SPACE and NO-BREAK SPACE, and \<^verbatim>\<open>toLowerCase\<close> maps
  A to Z and the capital letters U+00C0 to U+00DE (without the multiplication sign
  U+00D7) to the code unit 32 places further on.
\<close>

definition isWhitespace :: "char \<Rightarrow> bool" where
  "isWhitespace c = (of_char c \<in> {9, 10, 11, 12, 13, 32, 160 :: nat})"

definition lowerChar :: "char \<Rightarrow> char" where
  "lowerChar c =
     (let n = of_char c :: nat
      in if (65 \<le> n \<and> n \<le> 90) \<or> (192 \<le> n \<and> n \<le> 222 \<and> n \<noteq> 215)
         then char_of (n + 32) else c)"

definition toLowerCase :: "string \<Rightarrow> string" where
  "toLowerCase s = map lowerChar s"

definition trim :: "string \<Rightarrow> string" where
  "trim s = rev (dropWhile isWhitespace (rev (dropWhile isWhitespace s)))"

text \<open>\<^verbatim>\<open>s.includes(k)\<close>: \<open>k\<close> occurs in \<open>s\<close> as a contiguous run of code units.\<close>

fun includes_str :: "string \<Rightarrow> string \<Rightarrow> bool" where
  "includes_str [] k = (k = [])"
| "includes_str (c # cs) k = (prefix k (c # cs) \<or> includes_str cs k)"

definition endsWith :: "string \<Rightarrow> string \<Rightarrow> bool" where
  "endsWith s k = suffix k s"

section \<open>Validator\<close>

text \<open>The keyword list of \<^verbatim>\<open>validateMermaidCode\<close> (main.ts, lines 642 to 647).\<close>

definition mermaidKeywords :: "string list" where
  "mermaidKeywords =
     [''graph'', ''flowchart'', ''sequencediagram'', ''classdiagram'', ''statediagram'',
      ''erdiagram'', ''gantt'', ''pie'', ''gitgraph'', ''journey'', ''requirement'',
      ''c4context'', ''c4container'', ''c4component'', ''mindmap'', ''timeline'',
      ''sankey-beta'', ''quadrantchart'']"

text \<open>
  \<^verbatim>\<open>validateMermaidCode\<close> (main.ts, lines 634 to 650). The guard rejects the empty
  string (falsy in JavaScript) and a string that trims to nothing; \<^verbatim>\<open>some\<close> is
  \<^const>\<open>list_ex\<close>.
\<close>

definition validateMermaidCode :: "string \<Rightarrow> bool" where
  "validateMermaidCode code =
     (if code = [] \<or> length (trim code) = 0 then False
      else (let trimmed = toLowerCase (trim code)
            in list_ex (\<lambda>keyword. includes_str trimmed keyword) mermaidKeywords))"

section \<open>Source extraction\<close>

text \<open>
  \<^verbatim>\<open>extractMermaidCode\<close> (main.ts, lines 483 to 629) asks the document tree a fixed
  list of questions about the diagram element and decides on the answers. The answers are
  the fields of \<open>lookups\<close>; a text field holds the value of
  \<^verbatim>\<open>el.textContent || el.innerText\<close> of the element found, \<open>None\<close> stands for
  \<^verbatim>\<open>null\<close> (no such element or attribute).
\<close>

record svgLookup =
  containerCodeText :: "string option"
  editorViewCodes :: "string list option"

record lookups =
  isPreviewBlock :: bool
  taggedCodeText :: "string option"
  editorContainerCodes :: "string list option"
  dataCode :: "string option"
  dataMermaidCode :: "string option"
  dataSource :: "string option"
  preCodeText :: "string option"
  isCodeElement :: bool
  ownText :: string
  svgContainer :: "svgLookup option"
  editorBlocks :: "string list option"
  documentCodes :: "(string \<times> bool) list"

text \<open>\<^verbatim>\<open>if (code && code.trim().length > 0) return code.trim()\<close>.\<close>

definition nonEmptyTrimmed :: "string \<Rightarrow> string option" where
  "nonEmptyTrimmed code =
     (if code \<noteq> [] \<and> length (trim code) > 0 then Some (trim code) else None)"

text \<open>
  The loops over tagged code elements: the first text that is not blank and that
  \<^const>\<open>validateMermaidCode\<close> accepts once trimmed.
\<close>

fun firstValidated :: "string list \<Rightarrow> string option" where
  "firstValidated [] = None"
| "firstValidated (code # rest) =
     (if code \<noteq> [] \<and> length (trim code) > 0 \<and> validateMermaidCode (trim code)
      then Some (trim code) else firstValidated rest)"

text \<open>\<^verbatim>\<open>a || b\<close> on attribute values: the first that is neither null nor empty.\<close>

definition orElseStr :: "string option \<Rightarrow> string option \<Rightarrow> string option" where
  "orElseStr a b = (case a of Some s \<Rightarrow> (if s \<noteq> [] then Some s else b) | None \<Rightarrow> b)"

definition orElse :: "'a option \<Rightarrow> 'a option \<Rightarrow> 'a option" where
  "orElse a b = (case a of Some x \<Rightarrow> Some x | None \<Rightarrow> b)"

text \<open>Strategy 1 (lines 486 to 523), only for a preview or embed block.\<close>

definition strategy1 :: "lookups \<Rightarrow> string option" where
  "strategy1 q =
     (if isPreviewBlock q then
        orElse (case taggedCodeText q of Some code \<Rightarrow> nonEmptyTrimmed code | None \<Rightarrow> None)
       (orElse (case editorContainerCodes q of Some codes \<Rightarrow> firstValidated codes | None \<Rightarrow> None)
               (case orElseStr (dataCode q) (orElseStr (dataMermaidCode q) (dataSource q)) of
                  Some dc \<Rightarrow> nonEmptyTrimmed dc
                | None \<Rightarrow> None))
      else None)"

text \<open>Strategy 2 (lines 526 to 532).\<close>

definition strategy2 :: "lookups \<Rightarrow> string option" where
  "strategy2 q = (case taggedCodeText q of Some code \<Rightarrow> nonEmptyTrimmed code | None \<Rightarrow> None)"

text \<open>
  Strategy 3 (lines 535 to 547): the \<^verbatim>\<open>code\<close> child of the nearest enclosing
  \<^verbatim>\<open>pre\<close>, tested against twelve spellings of its own, case-sensitively and
  untrimmed.
\<close>

definition strategy3Keywords :: "string list" where
  "strategy3Keywords =
     [''graph'', ''flowchart'', ''sequenceDiagram'', ''classDiagram'', ''stateDiagram'',
      ''erDiagram'', ''gantt'', ''pie'', ''gitgraph'', ''journey'', ''requirement'',
      ''C4Context'']"

definition strategy3 :: "lookups \<Rightarrow> string option" where
  "strategy3 q =
     (case preCodeText q of
        Some code \<Rightarrow>
          (if code \<noteq> [] \<and>
              (includes_str code ''graph'' \<or> includes_str code ''flowchart'' \<or>
               includes_str code ''sequenceDiagram'' \<or> includes_str code ''classDiagram'' \<or>
               includes_str code ''stateDiagram'' \<or> includes_str code ''erDiagram'' \<or>
               includes_str code ''gantt'' \<or> includes_str code ''pie'' \<or>
               includes_str code ''gitgraph'' \<or> includes_str code ''journey'' \<or>
               includes_str code ''requirement'' \<or> includes_str code ''C4Context'')
           then Some (trim code) else None)
      | None \<Rightarrow> None)"

text \<open>Strategy 4 (lines 550 to 555).\<close>

definition strategy4 :: "lookups \<Rightarrow> string option" where
  "strategy4 q = (if isCodeElement q then nonEmptyTrimmed (ownText q) else None)"

text \<open>Strategy 5 (lines 558 to 585).\<close>

definition strategy5 :: "lookups \<Rightarrow> string option" where
  "strategy5 q =
     (case svgContainer q of
        Some c \<Rightarrow>
          orElse (case containerCodeText c of Some code \<Rightarrow> nonEmptyTrimmed code | None \<Rightarrow> None)
                 (case editorViewCodes c of Some codes \<Rightarrow> firstValidated codes | None \<Rightarrow> None)
      | None \<Rightarrow> None)"

text \<open>
  Strategy 6 (lines 588 to 611): \<open>editorBlocks\<close> holds the first capture group of each
  match of the fence pattern in the editor's content, \<open>None\<close> when there is no active
  editor or the editor API throws. The capture is trimmed before it is tested.
\<close>

fun firstValidBlock :: "string list \<Rightarrow> string option" where
  "firstValidBlock [] = None"
| "firstValidBlock (m # rest) =
     (let code = trim m
      in if code \<noteq> [] \<and> validateMermaidCode code then Some code else firstValidBlock rest)"

definition strategy6 :: "lookups \<Rightarrow> string option" where
  "strategy6 q = (case editorBlocks q of Some ms \<Rightarrow> firstValidBlock ms | None \<Rightarrow> None)"

text \<open>
  Strategy 7 (lines 615 to 626): every tagged code element of the document, with the
  answer to whether its block wrapper exists and is near the diagram element.
\<close>

fun strategy7Loop :: "(string \<times> bool) list \<Rightarrow> string option" where
  "strategy7Loop [] = None"
| "strategy7Loop ((code, near) # rest) =
     (if code \<noteq> [] \<and> length (trim code) > 0 \<and> validateMermaidCode (trim code) \<and> near
      then Some (trim code) else strategy7Loop rest)"

definition strategy7 :: "lookups \<Rightarrow> string option" where
  "strategy7 q = strategy7Loop (documentCodes q)"

definition extractMermaidCode :: "lookups \<Rightarrow> string option" where
  "extractMermaidCode q =
     orElse (strategy1 q) (orElse (strategy2 q) (orElse (strategy3 q) (orElse (strategy4 q)
       (orElse (strategy5 q) (orElse (strategy6 q) (strategy7 q))))))"

text \<open>A diagram element about which every lookup comes back empty.\<close>

definition noLookups :: lookups where
  "noLookups =
     \<lparr>isPreviewBlock = False, taggedCodeText = None, editorContainerCodes = None,
      dataCode = None, dataMermaidCode = None, dataSource = None, preCodeText = None,
      isCodeElement = False, ownText = [], svgContainer = None, editorBlocks = None,
      documentCodes = []\<rparr>"

section \<open>Settings\<close>

text \<open>\<^verbatim>\<open>MermaidExporterSettings\<close> and \<^verbatim>\<open>DEFAULT_SETTINGS\<close> (main.ts, lines 4 to 16).\<close>

record settings =
  exportQuality :: string
  defaultExportLocation :: string
  filenameFormat :: string
  exportFormat :: string

definition DEFAULT_SETTINGS :: settings where
  "DEFAULT_SETTINGS =
     \<lparr>exportQuality = ''high'', defaultExportLocation = [],
      filenameFormat = ''{noteName}-{timestamp}'', exportFormat = ''svg''\<rparr>"

section \<open>Numbers\<close>

text \<open>
  A JavaScript number is \<open>NaN\<close>, an infinity or a finite value. Finite values are
  modelled exactly, as rationals: the rounding of IEEE doubles and the sign of zero are
  outside the model.
\<close>

datatype jsnum = NaN | PosInf | NegInf | Fin rat

definition isDigit :: "char \<Rightarrow> bool" where
  "isDigit c = (48 \<le> (of_char c :: nat) \<and> (of_char c :: nat) \<le> 57)"

definition digitsValue :: "string \<Rightarrow> nat" where
  "digitsValue ds = foldl (\<lambda>a c. 10 * a + (of_char c - 48)) 0 ds"

text \<open>The optional sign in front of a numeral or an exponent: (negative, rest).\<close>

definition signOf :: "string \<Rightarrow> bool \<times> string" where
  "signOf t =
     (case t of
        [] \<Rightarrow> (False, [])
      | c # r \<Rightarrow> if c = CHR ''-'' then (True, r) else if c = CHR ''+'' then (False, r)
                else (False, t))"

definition exponentPart :: "string \<Rightarrow> int" where
  "exponentPart r =
     (case r of
        [] \<Rightarrow> 0
      | c # d \<Rightarrow>
          if c = CHR ''e'' \<or> c = CHR ''E'' then
            (let (neg, e) = signOf d; ds = takeWhile isDigit e
             in if ds = [] then 0
                else if neg then - int (digitsValue ds) else int (digitsValue ds))
          else 0)"

text \<open>
  \<^verbatim>\<open>parseFloat\<close>: leading white space is skipped, then the longest prefix that is a
  decimal literal (sign, \<^verbatim>\<open>Infinity\<close> or digits with an optional fraction and an
  optional exponent) is read; \<open>NaN\<close> when there is none.
\<close>

definition parseFloat :: "string \<Rightarrow> jsnum" where
  "parseFloat s =
     (let (neg, u) = signOf (dropWhile isWhitespace s)
      in if prefix ''Infinity'' u then (if neg then NegInf else PosInf)
         else
           (let ip = takeWhile isDigit u;
                r1 = dropWhile isDigit u;
                dot = (r1 \<noteq> [] \<and> hd r1 = CHR ''.'');
                fp = (if dot then takeWhile isDigit (tl r1) else []);
                r2 = (if dot then dropWhile isDigit (tl r1) else r1)
            in if ip = [] \<and> fp = [] then NaN
               else
                 (let mant = (of_nat (digitsValue (ip @ fp)) :: rat) / 10 ^ length fp;
                      ex = exponentPart r2;
                      v = (if 0 \<le> ex then mant * 10 ^ nat ex else mant / 10 ^ nat (- ex))
                  in Fin (if neg then - v else v))))"

text \<open>\<^verbatim>\<open>Math.round\<close>: the nearest integer, a tie going up.\<close>

definition mathRound :: "jsnum \<Rightarrow> jsnum" where
  "mathRound x = (case x of Fin r \<Rightarrow> Fin (of_int \<lfloor>r + 1 / 2\<rfloor>) | _ \<Rightarrow> x)"

text \<open>The product with a positive finite factor.\<close>

definition timesFactor :: "jsnum \<Rightarrow> rat \<Rightarrow> jsnum" where
  "timesFactor x m = (case x of Fin r \<Rightarrow> Fin (r * m) | _ \<Rightarrow> x)"

text \<open>
  \<^verbatim>\<open>s.split(/\s+/)\<close>: the pieces between maximal runs of white space; a run at either
  end leaves an empty piece there. \<open>splitWsFrom inRun cur s\<close> has read \<open>cur\<close> (reversed)
  of the current piece and is inside a run when \<open>inRun\<close>.
\<close>

fun splitWsFrom :: "bool \<Rightarrow> string \<Rightarrow> string \<Rightarrow> string list" where
  "splitWsFrom inRun cur [] = [rev cur]"
| "splitWsFrom inRun cur (c # cs) =
     (if isWhitespace c then
        (if inRun then splitWsFrom True cur cs else rev cur # splitWsFrom True [] cs)
      else splitWsFrom False (c # cur) cs)"

definition splitWs :: "string \<Rightarrow> string list" where
  "splitWs s = splitWsFrom False [] s"

section \<open>Vector markup\<close>

text \<open>
  The root element of a parsed artifact: its attributes in document order and its
  content, which the exporter never looks at. A parsed document is its root element and
  the answer to \<^verbatim>\<open>svgDoc.querySelector('parsererror')\<close>. The parser and the serializer
  belong to the host.
\<close>

record svgElement =
  attrs :: "(string \<times> string) list"
  inner :: string

record svgDocument =
  documentElement :: svgElement
  parserError :: bool

record domHost =
  parseFromString :: "string \<Rightarrow> svgDocument"
  serializeToString :: "svgElement \<Rightarrow> string"

definition getAttribute :: "svgElement \<Rightarrow> string \<Rightarrow> string option" where
  "getAttribute el name = map_of (attrs el) name"

definition setAttribute :: "svgElement \<Rightarrow> string \<Rightarrow> string \<Rightarrow> svgElement" where
  "setAttribute el name v = el\<lparr>attrs := AList.update name v (attrs el)\<rparr>"

text \<open>An attribute value in a condition: \<^verbatim>\<open>null\<close> and the empty string are falsy.\<close>

definition truthy :: "string option \<Rightarrow> bool" where
  "truthy a = (case a of Some s \<Rightarrow> s \<noteq> [] | None \<Rightarrow> False)"

text \<open>\<^verbatim>\<open>a || d\<close> for an attribute value and a default.\<close>

definition orDefault :: "string option \<Rightarrow> string \<Rightarrow> string" where
  "orDefault a d = (case a of Some s \<Rightarrow> (if s \<noteq> [] then s else d) | None \<Rightarrow> d)"

text \<open>
  \<^verbatim>\<open>if (!svgElement.getAttribute('viewBox') && currentWidth && currentHeight)\<close> followed
  by the \<^verbatim>\<open>setAttribute\<close> of the synthesized viewport.
\<close>

definition ensureViewBox :: "string option \<Rightarrow> string option \<Rightarrow> svgElement \<Rightarrow> svgElement" where
  "ensureViewBox currentWidth currentHeight el =
     (if \<not> truthy (getAttribute el ''viewBox'') \<and> truthy currentWidth \<and> truthy currentHeight
      then setAttribute el ''viewBox''
             (''0 0 '' @ the currentWidth @ '' '' @ the currentHeight)
      else el)"

text \<open>The attribute edits of \<^verbatim>\<open>generateHighQualitySvg\<close> (lines 765 to 794).\<close>

definition normalizeElement :: "settings \<Rightarrow> svgElement \<Rightarrow> svgElement" where
  "normalizeElement st svgEl =
     (let currentWidth = getAttribute svgEl ''width'';
          currentHeight = getAttribute svgEl ''height'';
          e1 = ensureViewBox currentWidth currentHeight svgEl;
          e2 = (if exportQuality st = ''maximum'' \<or> exportQuality st = ''high''
                then ensureViewBox currentWidth currentHeight e1
                else if exportQuality st = ''medium''
                then ensureViewBox currentWidth currentHeight e1
                else e1);
          e3 = (if \<not> truthy (getAttribute e2 ''xmlns'')
                then setAttribute e2 ''xmlns'' ''http://www.w3.org/2000/svg'' else e2);
          e4 = (if \<not> truthy (getAttribute e3 ''xmlns:xlink'')
                then setAttribute e3 ''xmlns:xlink'' ''http://www.w3.org/1999/xlink'' else e3)
      in e4)"

text \<open>
  \<^verbatim>\<open>generateHighQualitySvg\<close> (lines 751 to 799): on a parser error the markup is
  returned as it came.
\<close>

definition generateHighQualitySvg :: "domHost \<Rightarrow> settings \<Rightarrow> string \<Rightarrow> string" where
  "generateHighQualitySvg host st svgContent =
     (let svgDoc = parseFromString host svgContent
      in if parserError svgDoc then svgContent
         else serializeToString host (normalizeElement st (documentElement svgDoc)))"

section \<open>Raster size\<close>

text \<open>\<^verbatim>\<open>getQualityMultiplier\<close> (lines 1014 to 1027).\<close>

definition getQualityMultiplier :: "settings \<Rightarrow> rat" where
  "getQualityMultiplier st =
     (if exportQuality st = ''low'' then 1
      else if exportQuality st = ''medium'' then 3 / 2
      else if exportQuality st = ''high'' then 2
      else if exportQuality st = ''maximum'' then 3
      else 2)"

text \<open>
  The size of the canvas in \<^verbatim>\<open>convertSvgToRaster\<close> (lines 938 to 954), from the root
  element of the markup as the host parses it.
\<close>

definition rasterSize :: "settings \<Rightarrow> svgElement \<Rightarrow> jsnum \<times> jsnum" where
  "rasterSize st svgEl =
     (let viewBox = getAttribute svgEl ''viewBox'';
          width0 = parseFloat (orDefault (getAttribute svgEl ''width'') ''800'');
          height0 = parseFloat (orDefault (getAttribute svgEl ''height'') ''600'');
          (width1, height1) =
            (if truthy viewBox then
               (let parts = splitWs (the viewBox)
                in if length parts \<ge> 4 then (parseFloat (parts ! 2), parseFloat (parts ! 3))
                   else (width0, height0))
             else (width0, height0));
          qualityMultiplier = getQualityMultiplier st
      in (mathRound (timesFactor width1 qualityMultiplier),
          mathRound (timesFactor height1 qualityMultiplier)))"

section \<open>A host for the examples\<close>

text \<open>
  A serializer that writes the root element out, and a parser that knows two texts: the
  markup \<^verbatim>\<open><svg width="100" height="50"><g/></svg>\<close> and what the serializer writes for
  its normalized form.
\<close>

definition writeElement :: "svgElement \<Rightarrow> string" where
  "writeElement el =
     ''<svg'' @ concat (map (\<lambda>(k, v). '' '' @ k @ ''='' @ [CHR 0x22] @ v @ [CHR 0x22]) (attrs el))
       @ ''>'' @ inner el @ ''</svg>''"

definition sampleElement :: svgElement where
  "sampleElement = \<lparr>attrs = [(''width'', ''100''), (''height'', ''50'')], inner = ''<g/>''\<rparr>"

definition sampleHost :: domHost where
  "sampleHost =
     \<lparr>parseFromString =
        (\<lambda>s. if s = writeElement sampleElement
             then \<lparr>documentElement = sampleElement, parserError = False\<rparr>
             else if s = writeElement (normalizeElement DEFAULT_SETTINGS sampleElement)
             then \<lparr>documentElement = normalizeElement DEFAULT_SETTINGS sampleElement,
                   parserError = False\<rparr>
             else \<lparr>documentElement = \<lparr>attrs = [], inner = []\<rparr>, parserError = True\<rparr>),
      serializeToString = writeElement\<rparr>"

section \<open>Filenames\<close>

text \<open>
  \<^verbatim>\<open>subject.replace(/pat/g, replacement)\<close> for a pattern that is a literal, non-empty
  text and has no capture group. The replacement is a template: in it \<^verbatim>\<open>$$\<close> stands for
  a dollar sign, \<^verbatim>\<open>$&\<close> for the matched text, \<^verbatim>\<open>$`\<close> for the part of the subject
  before the match and \<^verbatim>\<open>$'\<close> for the part after it; any other dollar sign stands for
  itself (ECMAScript, GetSubstitution).
\<close>

fun expandTemplate :: "string \<Rightarrow> string \<Rightarrow> string \<Rightarrow> string \<Rightarrow> string" where
  "expandTemplate [] matched pre post = []"
| "expandTemplate [c] matched pre post = [c]"
| "expandTemplate (c # d # r) matched pre post =
     (if c = CHR ''$'' \<and> d = CHR ''$'' then CHR ''$'' # expandTemplate r matched pre post
      else if c = CHR ''$'' \<and> d = CHR ''&'' then matched @ expandTemplate r matched pre post
      else if c = CHR ''$'' \<and> d = CHR 0x60 then pre @ expandTemplate r matched pre post
      else if c = CHR ''$'' \<and> d = CHR 0x27 then post @ expandTemplate r matched pre post
      else c # expandTemplate (d # r) matched pre post)"

text \<open>
  The matches are found from left to right and do not overlap; \<open>i\<close> is the position the
  search has reached in the subject \<open>s\<close>.
\<close>

function replaceFrom :: "string \<Rightarrow> string \<Rightarrow> string \<Rightarrow> nat \<Rightarrow> string" where
  "replaceFrom pat replacement s i =
     (if pat = [] \<or> length s \<le> i then []
      else if prefix pat (drop i s)
      then expandTemplate replacement pat (take i s) (drop (i + length pat) s)
             @ replaceFrom pat replacement s (i + length pat)
      else s ! i # replaceFrom pat replacement s (Suc i))"
  by pat_completeness auto
termination
proof (relation "measure (\<lambda>(pat, replacement, s, i). length s - i)")
  fix pat :: string and replacement s :: string and i :: nat
  assume "\<not> (pat = [] \<or> length s \<le> i)"
  then have "0 < length pat" "i < length s" by auto
  then have "length s - (i + length pat) < length s - i" by linarith
  then show "((pat, replacement, s, i + length pat), (pat, replacement, s, i))
               \<in> measure (\<lambda>(pat, replacement, s, i). length s - i)"
    by simp
qed auto

declare replaceFrom.simps [simp del]

definition replaceAll :: "string \<Rightarrow> string \<Rightarrow> string \<Rightarrow> string" where
  "replaceAll pat replacement s = replaceFrom pat replacement s 0"

text \<open>
  What the substitution of a placeholder is meant to be: every occurrence, from left to
  right, gives way to the value as it is.
\<close>

function substituteFrom :: "string \<Rightarrow> string \<Rightarrow> string \<Rightarrow> nat \<Rightarrow> string" where
  "substituteFrom pat v s i =
     (if pat = [] \<or> length s \<le> i then []
      else if prefix pat (drop i s) then v @ substituteFrom pat v s (i + length pat)
      else s ! i # substituteFrom pat v s (Suc i))"
  by pat_completeness auto
termination
proof (relation "measure (\<lambda>(pat, v, s, i). length s - i)")
  fix pat :: string and v s :: string and i :: nat
  assume "\<not> (pat = [] \<or> length s \<le> i)"
  then have "0 < length pat" "i < length s" by auto
  then have "length s - (i + length pat) < length s - i" by linarith
  then show "((pat, v, s, i + length pat), (pat, v, s, i))
               \<in> measure (\<lambda>(pat, v, s, i). length s - i)"
    by simp
qed auto

declare substituteFrom.simps [simp del]

definition substitute :: "string \<Rightarrow> string \<Rightarrow> string \<Rightarrow> string" where
  "substitute pat v s = substituteFrom pat v s 0"

text \<open>
  The clock: \<^verbatim>\<open>now.toISOString()\<close> and \<^verbatim>\<open>now.toTimeString()\<close> of the moment of the
  export.
\<close>

record clock =
  isoString :: string
  timeString :: string

text \<open>\<^verbatim>\<open>now.toISOString().replace(/[:.]/g, '-').slice(0, -5)\<close>.\<close>

definition timestampOf :: "clock \<Rightarrow> string" where
  "timestampOf now =
     (let dashed = map (\<lambda>c. if c = CHR '':'' \<or> c = CHR ''.'' then CHR ''-'' else c) (isoString now)
      in take (length dashed - 5) dashed)"

text \<open>\<^verbatim>\<open>now.toISOString().split('T')[0]\<close>.\<close>

definition dateOf :: "clock \<Rightarrow> string" where
  "dateOf now = takeWhile (\<lambda>c. c \<noteq> CHR ''T'') (isoString now)"

text \<open>\<^verbatim>\<open>now.toTimeString().split(' ')[0].replace(/:/g, '-')\<close>.\<close>

definition timeOf :: "clock \<Rightarrow> string" where
  "timeOf now =
     map (\<lambda>c. if c = CHR '':'' then CHR ''-'' else c)
       (takeWhile (\<lambda>c. c \<noteq> CHR '' '') (timeString now))"

text \<open>
  \<^verbatim>\<open>generateFilename\<close> (lines 804 to 832); \<open>activeFile\<close> is the base name of the
  active note, if there is one.
\<close>

definition generateFilename :: "settings \<Rightarrow> string option \<Rightarrow> clock \<Rightarrow> string" where
  "generateFilename st activeFile now =
     (let noteName = (case activeFile of Some basename \<Rightarrow> basename | None \<Rightarrow> ''mermaid-diagram'');
          timestamp = timestampOf now;
          date = dateOf now;
          time = timeOf now;
          filename0 = (if filenameFormat st \<noteq> [] then filenameFormat st
                       else filenameFormat DEFAULT_SETTINGS);
          filename1 = replaceAll ''{noteName}'' noteName filename0;
          filename2 = replaceAll ''{timestamp}'' timestamp filename1;
          filename3 = replaceAll ''{date}'' date filename2;
          filename4 = replaceAll ''{time}'' time filename3;
          extension = (if exportFormat st \<noteq> [] then exportFormat st else ''svg'')
      in if \<not> endsWith filename4 (''.'' @ extension) then filename4 @ ''.'' @ extension
         else filename4)"

text \<open>A moment for the examples: 1 March 2024, 12:34:56 UTC.\<close>

definition sampleClock :: clock where
  "sampleClock =
     \<lparr>isoString = ''2024-03-01T12:34:56.789Z'',
      timeString = ''12:34:56 GMT+0000 (Coordinated Universal Time)''\<rparr>"

section \<open>The host and the trace of an export\<close>

text \<open>
  A thrown value is an \<^verbatim>\<open>Error\<close> with its message or something else;
  \<^verbatim>\<open>error instanceof Error ? error.message : 'Unknown error'\<close> reads it.
\<close>

datatype jsError = Error string | Thrown string

definition errorMessage :: "jsError \<Rightarrow> string" where
  "errorMessage e = (case e of Error m \<Rightarrow> m | Thrown v \<Rightarrow> ''Unknown error'')"

text \<open>
  A blob is text or the bitmap of a canvas (its width and height, and the markup drawn
  on it), with a type. \<^verbatim>\<open>downloadFile\<close> takes a string or a blob.
\<close>

datatype blobData = TextData string | CanvasData jsnum jsnum string

record blob =
  payload :: blobData
  mimeType :: string

datatype content = Str string | BlobContent blob

text \<open>
  What an export does to the world outside, in order: the notices and console lines of
  the exporter, and its calls of the rendering engine, the vault, the browser download
  and the canvas.
\<close>

datatype event =
    Notice string nat
  | HideLoadingNotice
  | ConsoleError string
  | ConsoleWarn string
  | ConsoleLog string
  | StagingAttached
  | StagingRemoved
  | Render string
  | Exists string
  | CreateFolder string
  | CreateBinary string blob
  | BrowserDownload string blob
  | LoadImage string
  | Canvas jsnum jsnum
  | ToBlob string "rat option"

text \<open>
  The host's services over its own state \<open>'w\<close>. A call returns a value or throws.
  \<open>mermaidRender\<close> is \<^verbatim>\<open>mermaid.render\<close> and returns the \<^verbatim>\<open>svg\<close> of its result
  (empty when the result has none); \<open>browserDownload\<close> is the object URL, the
  hidden link and its click; \<open>imageLoads\<close> tells \<^verbatim>\<open>onload\<close> from \<^verbatim>\<open>onerror\<close>,
  \<open>canvasContext\<close> whether \<^verbatim>\<open>getContext('2d')\<close> is there, \<open>canvasToBlob\<close> is
  \<^verbatim>\<open>canvas.toBlob\<close> for a canvas of the given size with the given markup drawn on it.
\<close>

record 'w host =
  domServices :: domHost
  activeFile :: "'w \<Rightarrow> string option"
  now :: "'w \<Rightarrow> clock"
  mermaidRender :: "string \<Rightarrow> 'w \<Rightarrow> (jsError + string) \<times> 'w"
  adapterExists :: "string \<Rightarrow> 'w \<Rightarrow> (jsError + bool) \<times> 'w"
  createFolder :: "string \<Rightarrow> 'w \<Rightarrow> (jsError + unit) \<times> 'w"
  createBinary :: "string \<Rightarrow> blob \<Rightarrow> 'w \<Rightarrow> (jsError + unit) \<times> 'w"
  browserDownload :: "blob \<Rightarrow> string \<Rightarrow> 'w \<Rightarrow> (jsError + unit) \<times> 'w"
  imageLoads :: "string \<Rightarrow> 'w \<Rightarrow> bool"
  canvasContext :: "'w \<Rightarrow> bool"
  canvasToBlob :: "jsnum \<Rightarrow> jsnum \<Rightarrow> string \<Rightarrow> string \<Rightarrow> rat option \<Rightarrow> 'w \<Rightarrow> blob option"

record 'w state =
  world :: 'w
  trace :: "event list"

definition start :: "'w \<Rightarrow> 'w state" where
  "start w = \<lparr>world = w, trace = []\<rparr>"

definition emits :: "event list \<Rightarrow> 'w state \<Rightarrow> 'w state" where
  "emits es s = s\<lparr>trace := trace s @ es\<rparr>"

text \<open>A call of a host service: the call is recorded, the host's state moves on.\<close>

definition call :: "event \<Rightarrow> ('w \<Rightarrow> (jsError + 'a) \<times> 'w) \<Rightarrow> 'w state \<Rightarrow> (jsError + 'a) \<times> 'w state" where
  "call e f s = (case f (world s) of (r, w') \<Rightarrow> (r, \<lparr>world = w', trace = trace s @ [e]\<rparr>))"

section \<open>Persisting\<close>

text \<open>\<^verbatim>\<open>s.split(c)\<close> for a single character; \<open>cur\<close> is the current piece, reversed.\<close>

fun splitCharFrom :: "char \<Rightarrow> string \<Rightarrow> string \<Rightarrow> string list" where
  "splitCharFrom sep cur [] = [rev cur]"
| "splitCharFrom sep cur (c # cs) =
     (if c = sep then rev cur # splitCharFrom sep [] cs else splitCharFrom sep (c # cur) cs)"

definition splitChar :: "char \<Rightarrow> string \<Rightarrow> string list" where
  "splitChar sep s = splitCharFrom sep [] s"

text \<open>
  The folder of \<^verbatim>\<open>saveToVault\<close> (lines 882 to 888): the trimmed setting without
  leading and trailing slashes, and with one slash at its end unless it is empty.
\<close>

definition normalizedPath :: "settings \<Rightarrow> string" where
  "normalizedPath st =
     (let exportPath = trim (defaultExportLocation st);
          stripped = rev (dropWhile (\<lambda>c. c = CHR ''/'') (rev (dropWhile (\<lambda>c. c = CHR ''/'') exportPath)))
      in if stripped \<noteq> [] \<and> \<not> endsWith stripped ''/'' then stripped @ ''/'' else stripped)"

text \<open>The loop over the path segments (lines 911 to 917).\<close>

fun createParents :: "'w host \<Rightarrow> string list \<Rightarrow> string \<Rightarrow> 'w state \<Rightarrow> (jsError + unit) \<times> 'w state" where
  "createParents host [] currentPath s = (Inr (), s)"
| "createParents host (part # rest) currentPath s =
     (let currentPath' = (if currentPath \<noteq> [] then currentPath @ ''/'' @ part else part)
      in case call (Exists currentPath') (adapterExists host currentPath') s of
           (Inl e, s1) \<Rightarrow> (Inl e, s1)
         | (Inr found, s1) \<Rightarrow>
             if \<not> found then
               (case call (CreateFolder currentPath') (createFolder host currentPath') s1 of
                  (Inl e, s2) \<Rightarrow> (Inl e, s2)
                | (Inr u, s2) \<Rightarrow> createParents host rest currentPath' s2)
             else createParents host rest currentPath' s1)"

text \<open>The directory part of \<^verbatim>\<open>saveToVault\<close> (lines 899 to 920).\<close>

definition ensureDirectory :: "'w host \<Rightarrow> string \<Rightarrow> 'w state \<Rightarrow> (jsError + unit) \<times> 'w state" where
  "ensureDirectory host dirPath s =
     (if dirPath \<noteq> [] then
        (case call (Exists dirPath) (adapterExists host dirPath) s of
           (Inl e, s1) \<Rightarrow> (Inl e, s1)
         | (Inr dirExists, s1) \<Rightarrow>
             if \<not> dirExists then
               (case call (CreateFolder dirPath) (createFolder host dirPath) s1 of
                  (Inl folderError, s2) \<Rightarrow>
                    createParents host (filter (\<lambda>p. p \<noteq> []) (splitChar CHR ''/'' dirPath)) [] s2
                | (Inr u, s2) \<Rightarrow> (Inr (), s2))
             else (Inr (), s1))
      else (Inr (), s))"

text \<open>\<^verbatim>\<open>saveToVault\<close> (lines 881 to 924).\<close>

definition saveToVault :: "'w host \<Rightarrow> settings \<Rightarrow> blob \<Rightarrow> string \<Rightarrow> 'w state \<Rightarrow> (jsError + unit) \<times> 'w state" where
  "saveToVault host st blob filename s =
     (let fullPath = normalizedPath st @ filename;
          dirPath = normalizedPath st
      in case ensureDirectory host dirPath s of
           (Inl e, s1) \<Rightarrow> (Inl e, s1)
         | (Inr u, s1) \<Rightarrow> call (CreateBinary fullPath blob) (createBinary host fullPath blob) s1)"

text \<open>
  The blob of \<^verbatim>\<open>downloadFile\<close> (lines 840 to 842): the content itself if it is a
  blob, else a new blob of the text with the given type, or
  \<^verbatim>\<open>application/octet-stream\<close> when none is given.
\<close>

definition contentBlob :: "content \<Rightarrow> string option \<Rightarrow> blob" where
  "contentBlob content mime =
     (case content of
        BlobContent b \<Rightarrow> b
      | Str text \<Rightarrow>
          \<lparr>payload = TextData text,
           mimeType = (case mime of
                         Some m \<Rightarrow> if m \<noteq> [] then m else ''application/octet-stream''
                       | None \<Rightarrow> ''application/octet-stream'')\<rparr>)"

text \<open>
  The body of the \<^verbatim>\<open>try\<close> of \<^verbatim>\<open>downloadFile\<close> (lines 839 to 871). The clean-up of
  the link, 100 ms later, is not part of the model.
\<close>

definition downloadFileBody :: "'w host \<Rightarrow> settings \<Rightarrow> content \<Rightarrow> string \<Rightarrow> string option \<Rightarrow> 'w state \<Rightarrow> (jsError + unit) \<times> 'w state" where
  "downloadFileBody host st content filename mime s =
     (let blob = contentBlob content mime
      in if defaultExportLocation st \<noteq> [] \<and> trim (defaultExportLocation st) \<noteq> [] then
           (case saveToVault host st blob filename s of
              (Inr u, s1) \<Rightarrow> (Inr (), s1)
            | (Inl vaultError, s1) \<Rightarrow>
                call (BrowserDownload filename blob) (browserDownload host blob filename)
                  (emits [ConsoleWarn ''Mermaid Exporter: Failed to save to vault, falling back to browser download:'',
                          Notice ''Could not save to vault location, using browser download instead'' 3000]
                     s1))
         else call (BrowserDownload filename blob) (browserDownload host blob filename) s)"

text \<open>\<^verbatim>\<open>downloadFile\<close> (lines 837 to 876), with its \<^verbatim>\<open>catch\<close>.\<close>

definition downloadFile :: "'w host \<Rightarrow> settings \<Rightarrow> content \<Rightarrow> string \<Rightarrow> string option \<Rightarrow> 'w state \<Rightarrow> (jsError + unit) \<times> 'w state" where
  "downloadFile host st content filename mime s =
     (case downloadFileBody host st content filename mime s of
        (Inr u, s1) \<Rightarrow> (Inr (), s1)
      | (Inl error, s1) \<Rightarrow>
          (Inl (Error (''Failed to download file: '' @ errorMessage error)),
           emits [ConsoleError ''Mermaid Exporter: Download error:''] s1))"

section \<open>Rasterizing\<close>

text \<open>
  \<^verbatim>\<open>convertSvgToRaster\<close> (lines 929 to 1009). The data URL of the image is the markup
  itself, in base 64; the promise is rejected where the model returns an error.
\<close>

definition convertSvgToRaster :: "'w host \<Rightarrow> settings \<Rightarrow> string \<Rightarrow> string \<Rightarrow> string \<Rightarrow> 'w state \<Rightarrow> (jsError + unit) \<times> 'w state" where
  "convertSvgToRaster host st svgContent filename format s =
     (let svgEl = documentElement (parseFromString (domServices host) svgContent);
          (width, height) = rasterSize st svgEl;
          mime = (if format = ''png'' then ''image/png'' else ''image/jpeg'');
          quality = (if format = ''jpeg'' then Some (92 / 100) else None);
          s1 = emits [LoadImage svgContent] s
      in if \<not> imageLoads host svgContent (world s1)
         then (Inl (Error ''Failed to load SVG image''), s1)
         else
           (let s2 = emits [Canvas width height] s1
            in if \<not> canvasContext host (world s2)
               then (Inl (Error ''Could not get canvas context''), s2)
               else
                 (let s3 = emits [ToBlob mime quality] s2
                  in case canvasToBlob host width height svgContent mime quality (world s3) of
                       None \<Rightarrow> (Inl (Error ''Failed to convert canvas to blob''), s3)
                     | Some blob \<Rightarrow> downloadFile host st (BlobContent blob) filename (Some mime) s3)))"

section \<open>Rendering\<close>

text \<open>
  \<^verbatim>\<open>renderMermaidToSvg\<close> (lines 655 to 746): the staging container is attached, the
  engine is called, the container is removed on both paths, and every failure ends as
  \<^verbatim>\<open>null\<close>. The identifier of the diagram and the waits for the layout are not part
  of the model.
\<close>

definition renderMermaidToSvg :: "'w host \<Rightarrow> string \<Rightarrow> 'w state \<Rightarrow> string option \<times> 'w state" where
  "renderMermaidToSvg host mermaidCode s =
     (case call (Render mermaidCode) (mermaidRender host mermaidCode) (emits [StagingAttached] s) of
        (Inr svg, s1) \<Rightarrow>
          if svg = [] \<or> length (trim svg) = 0
          then (None, emits [StagingRemoved,
                             ConsoleError ''Mermaid Exporter: Rendering error:'',
                             ConsoleError ''Error details:''] s1)
          else (Some svg, emits [StagingRemoved] s1)
      | (Inl error, s1) \<Rightarrow>
          (None, emits ([StagingRemoved, ConsoleError ''Mermaid Exporter: Rendering error:'']
                        @ (case error of Error m \<Rightarrow> [ConsoleError ''Error details:'']
                                       | Thrown v \<Rightarrow> [])) s1))"

section \<open>The export operation\<close>

text \<open>The branch on the format (lines 456 to 468).\<close>

definition exportArtifact :: "'w host \<Rightarrow> settings \<Rightarrow> string \<Rightarrow> string \<Rightarrow> 'w state \<Rightarrow> (jsError + unit) \<times> 'w state" where
  "exportArtifact host st highQualitySvg filename s =
     (let format = (if exportFormat st \<noteq> [] then exportFormat st else ''svg'')
      in if format = ''svg'' then
           downloadFile host st (Str highQualitySvg) filename
             (Some ''image/svg+xml;charset=utf-8'') s
         else if format = ''png'' \<or> format = ''jpeg'' then
           convertSvgToRaster host st highQualitySvg filename format s
         else
           downloadFile host st (Str highQualitySvg) filename
             (Some ''image/svg+xml;charset=utf-8'') s)"

text \<open>
  The end of the operation: the notice of success (lines 470 to 472), or the
  \<^verbatim>\<open>catch\<close> (lines 474 to 477) when the format branch threw.
\<close>

definition finishExport :: "string \<Rightarrow> (jsError + unit) \<times> 'w state \<Rightarrow> 'w state" where
  "finishExport filename outcome =
     (case outcome of
        (Inr u, s2) \<Rightarrow>
          emits [HideLoadingNotice,
                 Notice (''Successfully exported: '' @ filename) 3000,
                 ConsoleLog ''Mermaid Exporter: Successfully exported diagram:''] s2
      | (Inl error, s2) \<Rightarrow>
          emits [Notice (''Export failed: '' @ errorMessage error) 5000,
                 ConsoleError ''Mermaid Exporter: Export error:''] s2)"

text \<open>
  \<^verbatim>\<open>handleExportClick\<close> (lines 420 to 478) for a diagram element with the lookups
  \<open>q\<close>. Its \<^verbatim>\<open>catch\<close> takes every error, so the operation ends in a state and never
  in an error.
\<close>

definition handleExportClick :: "'w host \<Rightarrow> settings \<Rightarrow> lookups \<Rightarrow> 'w state \<Rightarrow> 'w state" where
  "handleExportClick host st q s =
     (let s0 = emits [Notice ''Exporting Mermaid diagram...'' 0] s;
          mermaidCode = extractMermaidCode q
      in if mermaidCode = None \<or> mermaidCode = Some [] then
           emits [HideLoadingNotice,
                  Notice ''Error: Could not find Mermaid diagram source code'' 5000,
                  ConsoleError ''Mermaid Exporter: Could not extract Mermaid code from element:''] s0
         else if \<not> validateMermaidCode (the mermaidCode) then
           emits [HideLoadingNotice,
                  Notice ''Error: Invalid Mermaid diagram code'' 5000,
                  ConsoleError ''Mermaid Exporter: Invalid Mermaid code:''] s0
         else
           (case renderMermaidToSvg host (the mermaidCode) s0 of
              (svgContent, s1) \<Rightarrow>
                if svgContent = None \<or> svgContent = Some [] then
                  emits [HideLoadingNotice,
                         Notice ''Error: Failed to render Mermaid diagram'' 5000,
                         ConsoleError ''Mermaid Exporter: Failed to render Mermaid diagram''] s1
                else
                  (let highQualitySvg = generateHighQualitySvg (domServices host) st (the svgContent);
                       filename = generateFilename st (activeFile host (world s1)) (now host (world s1))
                   in finishExport filename (exportArtifact host st highQualitySvg filename s1))))"

section \<open>A host for the examples of an export\<close>

text \<open>
  A host without a state of its own: the engine renders every source to the sample
  markup, no folder exists, and the vault and the browser download work or throw as the
  two switches say.
\<close>

definition switchHost :: "bool \<Rightarrow> bool \<Rightarrow> unit host" where
  "switchHost vaultWorks downloadWorks =
     \<lparr>domServices = sampleHost,
      activeFile = (\<lambda>w. Some ''Design''),
      now = (\<lambda>w. sampleClock),
      mermaidRender = (\<lambda>code w. (Inr (writeElement sampleElement), w)),
      adapterExists = (\<lambda>path w. (Inr False, w)),
      createFolder = (\<lambda>path w. (Inr (), w)),
      createBinary = (\<lambda>path b w. (if vaultWorks then Inr () else Inl (Error ''File already exists.''), w)),
      browserDownload = (\<lambda>b name w. (if downloadWorks then Inr () else Inl (Error ''download blocked''), w)),
      imageLoads = (\<lambda>url w. True),
      canvasContext = (\<lambda>w. True),
      canvasToBlob = (\<lambda>width height drawn mime quality w.
                        Some \<lparr>payload = CanvasData width height drawn, mimeType = mime\<rparr>)\<rparr>"

text \<open>A diagram element whose only recoverable text is the given one.\<close>

definition lookupsWith :: "string \<Rightarrow> lookups" where
  "lookupsWith text = noLookups\<lparr>taggedCodeText := Some text\<rparr>"

section \<open>Reading a trace\<close>

text \<open>The messages of the notices of a trace, in order.\<close>

fun notices :: "event list \<Rightarrow> string list" where
  "notices [] = []"
| "notices (Notice m t # es) = m # notices es"
| "notices (e # es) = notices es"

text \<open>The blobs handed to the vault or to the browser download, in order.\<close>

fun deliveries :: "event list \<Rightarrow> blob list" where
  "deliveries [] = []"
| "deliveries (CreateBinary p b # es) = b # deliveries es"
| "deliveries (BrowserDownload n b # es) = b # deliveries es"
| "deliveries (e # es) = deliveries es"

text \<open>The events of the raster conversion.\<close>

fun rasterEvent :: "event \<Rightarrow> bool" where
  "rasterEvent (LoadImage url) = True"
| "rasterEvent (Canvas w h) = True"
| "rasterEvent (ToBlob m q) = True"
| "rasterEvent e = False"

text \<open>
  The events of persisting the blob \<open>b\<close>: calls of the vault and of the browser download
  that carry \<open>b\<close>, warnings, errors and notices.
\<close>

fun persistEvent :: "blob \<Rightarrow> event \<Rightarrow> bool" where
  "persistEvent b (Exists p) = True"
| "persistEvent b (CreateFolder p) = True"
| "persistEvent b (CreateBinary p b') = (b' = b)"
| "persistEvent b (BrowserDownload n b') = (b' = b)"
| "persistEvent b (ConsoleWarn m) = True"
| "persistEvent b (ConsoleError m) = True"
| "persistEvent b (Notice m t) = True"
| "persistEvent b e = False"

text \<open>From \<open>s\<close> to \<open>s'\<close> the trace has grown, by events that all satisfy \<open>P\<close>.\<close>

definition onlyEmits :: "(event \<Rightarrow> bool) \<Rightarrow> 'w state \<Rightarrow> 'w state \<Rightarrow> bool" where
  "onlyEmits P s s' = (\<exists>es. trace s' = trace s @ es \<and> list_all P es)"

section \<open>The document tree\<close>

text \<open>
  A node of the document tree is an element or a text. An element has an identity (a
  number that stands for the object), a tag name in lower case, the classes of its
  \<^verbatim>\<open>classList\<close>, its other attributes and its child nodes in order. The functions on
  trees are written over lists of sibling nodes.
\<close>

datatype node =
    Element nat string "string list" "(string \<times> string) list" "node list"
  | TextNode string


text \<open>An attribute selector \<^verbatim>\<open>[name*="part"]\<close> and \<^verbatim>\<open>[name="value"]\<close>.\<close>

definition attrIncludes :: "(string \<times> string) list \<Rightarrow> string \<Rightarrow> string \<Rightarrow> bool" where
  "attrIncludes a name part =
     (case map_of a name of Some v \<Rightarrow> includes_str v part | None \<Rightarrow> False)"

text \<open>The selector \<^verbatim>\<open>.mermaid-export-button\<close>.\<close>

fun isExportButton :: "node \<Rightarrow> bool" where
  "isExportButton (Element i t c a ks) = (''mermaid-export-button'' \<in> set c)"
| "isExportButton (TextNode s) = False"

text \<open>
  The selector list of the edit control in \<^verbatim>\<open>addExportButton\<close> (line 399):
  \<^verbatim>\<open>.edit-block-button, button[aria-label*="Edit"], button[title*="Edit"],
  a[aria-label*="Edit"], div[aria-label="Edit this block"]\<close>.
\<close>

fun isEditControl :: "node \<Rightarrow> bool" where
  "isEditControl (Element i t c a ks) =
     (''edit-block-button'' \<in> set c
      \<or> (t = ''button'' \<and> attrIncludes a ''aria-label'' ''Edit'')
      \<or> (t = ''button'' \<and> attrIncludes a ''title'' ''Edit'')
      \<or> (t = ''a'' \<and> attrIncludes a ''aria-label'' ''Edit'')
      \<or> (t = ''div'' \<and> map_of a ''aria-label'' = Some ''Edit this block''))"
| "isEditControl (TextNode s) = False"

text \<open>Whether some node among the given siblings and their descendants satisfies \<open>P\<close>.\<close>

fun existsIn :: "(node \<Rightarrow> bool) \<Rightarrow> node list \<Rightarrow> bool" where
  "existsIn P [] = False"
| "existsIn P (TextNode s # ns) = (P (TextNode s) \<or> existsIn P ns)"
| "existsIn P (Element i t c a ks # ns) =
     (P (Element i t c a ks) \<or> existsIn P ks \<or> existsIn P ns)"

text \<open>How many of them do.\<close>

fun countIn :: "(node \<Rightarrow> bool) \<Rightarrow> node list \<Rightarrow> nat" where
  "countIn P [] = 0"
| "countIn P (TextNode s # ns) = (if P (TextNode s) then 1 else 0) + countIn P ns"
| "countIn P (Element i t c a ks # ns) =
     (if P (Element i t c a ks) then 1 else 0) + countIn P ks + countIn P ns"

section \<open>Attaching the export control\<close>

text \<open>
  The button that \<^verbatim>\<open>addExportButton\<close> creates (lines 345 to 396), for fresh identities
  from \<open>newId\<close> on: its class, its attributes in the order in which they are set, and
  the icon of its \<^verbatim>\<open>innerHTML\<close> with the line breaks and tabs between its elements. The
  listeners of the button are not part of the tree.
\<close>

definition indent :: "nat \<Rightarrow> node" where
  "indent n = TextNode (CHR 0x0A # replicate n (CHR 0x09))"

definition exportButton :: "nat \<Rightarrow> node" where
  "exportButton newId =
     Element newId ''button'' [''mermaid-export-button'']
       [(''aria-label'', ''Export Mermaid diagram as SVG''),
        (''title'', ''Export as SVG''),
        (''style'', ''display: inline-flex; align-items: center; justify-content: center; padding: 4px 8px; margin: 2px; border: none; background: transparent; color: var(--text-muted); cursor: pointer; border-radius: 4px; transition: background-color 0.2s, color 0.2s; opacity: 0.8;''),
        (''data-mermaid-element'', ''true'')]
       [indent 3,
        Element (newId + 1) ''svg'' []
          [(''width'', ''16''), (''height'', ''16''), (''viewBox'', ''0 0 24 24''),
           (''fill'', ''none''), (''stroke'', ''currentColor''), (''stroke-width'', ''2''),
           (''stroke-linecap'', ''round''), (''stroke-linejoin'', ''round'')]
          [indent 4,
           Element (newId + 2) ''path'' []
             [(''d'', ''M21 15v4a2 2 0 0 1-2 2H5a2 2 0 0 1-2-2v-4'')] [],
           indent 4,
           Element (newId + 3) ''polyline'' [] [(''points'', ''7 10 12 15 17 10'')] [],
           indent 4,
           Element (newId + 4) ''line'' []
             [(''x1'', ''12''), (''y1'', ''15''), (''x2'', ''12''), (''y2'', ''3'')] [],
           indent 3],
        indent 2]"

text \<open>
  Where \<^verbatim>\<open>actionBar.querySelector\<close> finds the first edit control, in document order:
  it is a child of the anchor, at an index, or it lies deeper, and then what matters is
  whether it has a next sibling.
\<close>

datatype hit = Direct nat | Deep bool

text \<open>The first match among siblings and their descendants: has it a next sibling?\<close>

fun findDeep :: "node list \<Rightarrow> bool option" where
  "findDeep [] = None"
| "findDeep (TextNode s # ns) = findDeep ns"
| "findDeep (Element i t c a ks # ns) =
     (if isEditControl (Element i t c a ks) then Some (ns \<noteq> [])
      else (case findDeep ks of Some b \<Rightarrow> Some b | None \<Rightarrow> findDeep ns))"

text \<open>The first match below the anchor, whose children from index \<open>j\<close> on are given.\<close>

fun findEdit :: "node list \<Rightarrow> nat \<Rightarrow> hit option" where
  "findEdit [] j = None"
| "findEdit (TextNode s # ns) j = findEdit ns (Suc j)"
| "findEdit (Element i t c a ks # ns) j =
     (if isEditControl (Element i t c a ks) then Some (Direct j)
      else (case findDeep ks of Some b \<Rightarrow> Some (Deep b) | None \<Rightarrow> findEdit ns (Suc j)))"

text \<open>
  \<^verbatim>\<open>insertBefore\<close> throws a \<^verbatim>\<open>NotFoundError\<close> when the reference node is not a child
  of the node it is called on; reading a property of \<^verbatim>\<open>null\<close> throws a
  \<^verbatim>\<open>TypeError\<close>.
\<close>

datatype domError = NotFoundError | TypeError

text \<open>
  \<^verbatim>\<open>addExportButton\<close> (lines 338 to 415) on the children \<open>ks\<close> of the anchor: the new
  children, or the error of \<^verbatim>\<open>insertBefore\<close>.
\<close>

definition addExportButton :: "nat \<Rightarrow> node list \<Rightarrow> domError + node list" where
  "addExportButton newId ks =
     (if existsIn isExportButton ks then Inr ks
      else
        (case findEdit ks 0 of
           Some (Direct j) \<Rightarrow>
             (if Suc j < length ks
              then Inr (take (Suc j) ks @ [exportButton newId] @ drop (Suc j) ks)
              else Inr (ks @ [exportButton newId]))
         | Some (Deep hasNextSibling) \<Rightarrow>
             (if hasNextSibling then Inl NotFoundError
              else Inr (ks @ [exportButton newId]))
         | None \<Rightarrow>
             (if ks \<noteq> [] then Inr (exportButton newId # ks)
              else Inr (ks @ [exportButton newId]))))"

text \<open>
  An anchor in which the first edit control lies inside a tool bar and is the last child
  there, and a code element after the tool bar.
\<close>

definition nestedEditAnchor :: "node list" where
  "nestedEditAnchor =
     [Element 1 ''div'' [''toolbar'']
        [] [Element 2 ''button'' [] [(''aria-label'', ''Edit diagram'')] []],
      Element 3 ''code'' [''language-mermaid''] [] [TextNode ''graph TD'']]"

text \<open>An anchor with the host's edit control and a copy control as its children.\<close>

definition hostAnchor :: "node list" where
  "hostAnchor =
     [Element 1 ''div'' [''edit-block-button''] [(''aria-label'', ''Edit this block'')] [],
      Element 2 ''button'' [''copy-code-button''] [] []]"

section \<open>Cleaning up after removed diagrams\<close>

text \<open>
  A reference to an element is its identity. The elements of a forest in document order,
  which is the order of \<^verbatim>\<open>querySelectorAll\<close>, and their identities:
\<close>

fun idOf :: "node \<Rightarrow> nat" where
  "idOf (Element i t c a ks) = i"

fun childNodes :: "node \<Rightarrow> node list" where
  "childNodes (Element i t c a ks) = ks"
| "childNodes (TextNode s) = []"

fun elements :: "node list \<Rightarrow> node list" where
  "elements [] = []"
| "elements (TextNode s # ns) = elements ns"
| "elements (Element i t c a ks # ns) = Element i t c a ks # elements ks @ elements ns"

definition ids :: "node list \<Rightarrow> nat list" where
  "ids ns = map idOf (elements ns)"

text \<open>\<^verbatim>\<open>querySelectorAll\<close> for a selector \<open>P\<close>.\<close>

definition idsWhere :: "(node \<Rightarrow> bool) \<Rightarrow> node list \<Rightarrow> nat list" where
  "idsWhere P ns = map idOf (filter P (elements ns))"
















text \<open>
  Removing several elements at once: every element whose identity is in \<open>S\<close> goes, with
  its subtree.
\<close>

fun prune :: "nat set \<Rightarrow> node list \<Rightarrow> node list" where
  "prune S [] = []"
| "prune S (TextNode s # ns) = TextNode s # prune S ns"
| "prune S (Element i t c a ks # ns) =
     (if i \<in> S then prune S ns
      else Element i t c a (prune S ks) # prune S ns)"

fun pruneNode :: "nat set \<Rightarrow> node \<Rightarrow> node" where
  "pruneNode S (Element i t c a ks) = Element i t c a (prune S ks)"
| "pruneNode S (TextNode s) = TextNode s"










section \<open>Facts about strings\<close>

lemma includes_iff: "includes_str s k \<longleftrightarrow> (\<exists>p q. s = p @ k @ q)"
proof (induction s)
  case Nil
  then show ?case by auto
next
  case (Cons c cs)
  show ?case
  proof
    assume "includes_str (c # cs) k"
    then consider "prefix k (c # cs)" | "includes_str cs k" by auto
    then show "\<exists>p q. c # cs = p @ k @ q"
    proof cases
      case 1
      then obtain q where "c # cs = k @ q" by (auto simp: prefix_def)
      then have "c # cs = [] @ k @ q" by simp
      then show ?thesis by blast
    next
      case 2
      with Cons.IH obtain p q where "cs = p @ k @ q" by blast
      then have "c # cs = (c # p) @ k @ q" by simp
      then show ?thesis by blast
    qed
  next
    assume "\<exists>p q. c # cs = p @ k @ q"
    then obtain p q where pq: "c # cs = p @ k @ q" by blast
    show "includes_str (c # cs) k"
    proof (cases p)
      case Nil
      with pq have "prefix k (c # cs)" by (simp add: prefix_def)
      then show ?thesis by simp
    next
      case (Cons a p')
      with pq have "cs = p' @ k @ q" by simp
      with Cons.IH have "includes_str cs k" by blast
      then show ?thesis by simp
    qed
  qed
qed

lemma isWhitespace_lowerChar: "isWhitespace (lowerChar c) = isWhitespace c"
  unfolding isWhitespace_def lowerChar_def Let_def by auto

lemma dropWhile_ws_toLowerCase:
  "dropWhile isWhitespace (map lowerChar s) = map lowerChar (dropWhile isWhitespace s)"
  by (induction s) (simp_all add: isWhitespace_lowerChar)

lemma trim_toLowerCase: "trim (toLowerCase s) = toLowerCase (trim s)"
  by (simp add: trim_def toLowerCase_def dropWhile_ws_toLowerCase rev_map)

lemma keywords_nonempty: "k \<in> set mermaidKeywords \<Longrightarrow> k \<noteq> []"
  by (auto simp: mermaidKeywords_def)

section \<open>The validator accepts exactly the texts that contain a keyword\<close>

text \<open>
  C1. For every input, \<^const>\<open>validateMermaidCode\<close> returns true if and only if the
  input, trimmed and lower-cased (in either order), contains one of the keywords of
  \<^const>\<open>mermaidKeywords\<close> as a substring. It accepts
  \<^verbatim>\<open>"flowchart TD\nA-->B"\<close> and rejects \<^verbatim>\<open>"just some prose"\<close> and the empty
  string.
\<close>

theorem validateMermaidCode_iff_keyword:
  "(validateMermaidCode code \<longleftrightarrow>
      (\<exists>k p q. k \<in> set mermaidKeywords \<and> toLowerCase (trim code) = p @ k @ q))
   \<and> toLowerCase (trim code) = trim (toLowerCase code)
   \<and> validateMermaidCode ''flowchart TD\<newline>A-->B'' = True
   \<and> validateMermaidCode ''just some prose'' = False
   \<and> validateMermaidCode '''' = False"
proof -
  have general: "validateMermaidCode code \<longleftrightarrow>
      (\<exists>k p q. k \<in> set mermaidKeywords \<and> toLowerCase (trim code) = p @ k @ q)"
  proof (cases "trim code = []")
    case True
    then have "\<not> validateMermaidCode code" by (simp add: validateMermaidCode_def)
    moreover have "\<not> (\<exists>k p q. k \<in> set mermaidKeywords \<and> toLowerCase (trim code) = p @ k @ q)"
      using True keywords_nonempty by (auto simp: toLowerCase_def)
    ultimately show ?thesis by blast
  next
    case False
    then have "code \<noteq> []" by (auto simp: trim_def)
    with False show ?thesis
      by (auto simp: validateMermaidCode_def Let_def list_ex_iff includes_iff)
  qed
  have e1: "validateMermaidCode ''flowchart TD\<newline>A-->B'' = True" by code_simp
  have e2: "validateMermaidCode ''just some prose'' = False" by code_simp
  have e3: "validateMermaidCode '''' = False" by code_simp
  from general trim_toLowerCase [of code] e1 e2 e3 show ?thesis by simp
qed

theorem validateMermaidCode_iff_keyword_witness:
  "validateMermaidCode ''  Gantt\<newline>title Plan '' = True
   \<and> (\<exists>k p q. k \<in> set mermaidKeywords
        \<and> toLowerCase (trim ''  Gantt\<newline>title Plan '') = p @ k @ q)"
proof -
  have "validateMermaidCode ''  Gantt\<newline>title Plan '' = True" by code_simp
  with validateMermaidCode_iff_keyword [of "''  Gantt\<newline>title Plan ''"] show ?thesis
    by blast
qed

section \<open>Strategy 3 of the source extraction\<close>

lemma dropWhile_keeps_tail:
  assumes "r \<noteq> []" "\<not> P (hd r)"
  shows "\<exists>p'. dropWhile P (p @ r) = p' @ r"
proof -
  from assms have r: "dropWhile P r = r" by (cases r) auto
  show ?thesis
  proof (cases "\<forall>x\<in>set p. P x")
    case True
    then have "dropWhile P (p @ r) = [] @ r" using r by simp
    then show ?thesis by blast
  next
    case False
    then have "dropWhile P (p @ r) = dropWhile P p @ r" by auto
    then show ?thesis by blast
  qed
qed

lemma trim_keeps_occurrence:
  assumes k: "k \<noteq> []" "\<not> isWhitespace (hd k)" "\<not> isWhitespace (last k)"
  shows "\<exists>p' q'. trim (p @ k @ q) = p' @ k @ q'"
proof -
  from k(1,2) obtain p' where 1: "dropWhile isWhitespace (p @ k @ q) = p' @ k @ q"
    using dropWhile_keeps_tail [of "k @ q" isWhitespace p] by (cases k) auto
  have "rev k @ rev p' \<noteq> []" "\<not> isWhitespace (hd (rev k @ rev p'))"
    using k by (auto simp: hd_rev)
  then obtain q' where 2: "dropWhile isWhitespace (rev q @ rev k @ rev p') = q' @ rev k @ rev p'"
    using dropWhile_keeps_tail [of "rev k @ rev p'" isWhitespace "rev q"] by blast
  have "trim (p @ k @ q) = p' @ k @ rev q'"
    by (simp add: trim_def 1 2)
  then show ?thesis by blast
qed

lemma includes_trim:
  assumes "includes_str code k" "k \<noteq> []" "\<not> isWhitespace (hd k)" "\<not> isWhitespace (last k)"
  shows "includes_str (trim code) k"
proof -
  from assms(1) obtain p q where "code = p @ k @ q" by (auto simp: includes_iff)
  with trim_keeps_occurrence [OF assms(2-4)] show ?thesis
    unfolding includes_iff by blast
qed

lemma includes_toLowerCase:
  assumes "includes_str s k"
  shows "includes_str (toLowerCase s) (toLowerCase k)"
proof -
  from assms obtain p q where "s = p @ k @ q" by (auto simp: includes_iff)
  then have "toLowerCase s = toLowerCase p @ toLowerCase k @ toLowerCase q"
    by (simp add: toLowerCase_def)
  then show ?thesis unfolding includes_iff by blast
qed

lemma strategy3Keywords_lower:
  "k \<in> set strategy3Keywords \<Longrightarrow>
     toLowerCase k \<in> set mermaidKeywords \<and> k \<noteq> [] \<and>
     \<not> isWhitespace (hd k) \<and> \<not> isWhitespace (last k)"
  unfolding strategy3Keywords_def
  apply (simp only: set_simps insert_iff empty_iff)
  apply (elim disjE)
  by (simp; code_simp)+

lemma validate_if_keyword:
  assumes "k \<in> set mermaidKeywords" "includes_str (toLowerCase (trim code)) k"
  shows "validateMermaidCode code"
proof -
  from assms(2) obtain p q where pq: "toLowerCase (trim code) = p @ k @ q"
    by (auto simp: includes_iff)
  with assms(1) keywords_nonempty have "trim code \<noteq> []"
    by (auto simp: toLowerCase_def)
  then have "code \<noteq> []" by (auto simp: trim_def)
  with \<open>trim code \<noteq> []\<close> assms show ?thesis
    by (auto simp: validateMermaidCode_def Let_def list_ex_iff)
qed

lemma strategy3_keyword_validates:
  assumes "k \<in> set strategy3Keywords" "includes_str code k"
  shows "validateMermaidCode code \<and> validateMermaidCode (trim code)
         \<and> includes_str (toLowerCase (trim code)) (toLowerCase k)"
proof -
  from strategy3Keywords_lower [OF assms(1)]
  have low: "toLowerCase k \<in> set mermaidKeywords"
    and k: "k \<noteq> []" "\<not> isWhitespace (hd k)" "\<not> isWhitespace (last k)" by auto
  have 1: "includes_str (trim code) k" by (rule includes_trim [OF assms(2) k])
  have 2: "includes_str (trim (trim code)) k" by (rule includes_trim [OF 1 k])
  from validate_if_keyword [OF low includes_toLowerCase [OF 1]]
       validate_if_keyword [OF low includes_toLowerCase [OF 2]]
       includes_toLowerCase [OF 1]
  show ?thesis by simp
qed

lemma strategy3_Some:
  "strategy3 q = Some text \<longleftrightarrow>
     (\<exists>code. preCodeText q = Some code \<and> text = trim code \<and>
             (\<exists>k. k \<in> set strategy3Keywords \<and> includes_str code k))"
proof -
  have kw: "\<And>code. (\<exists>k. k \<in> set strategy3Keywords \<and> includes_str code k) \<longleftrightarrow>
      (includes_str code ''graph'' \<or> includes_str code ''flowchart'' \<or>
       includes_str code ''sequenceDiagram'' \<or> includes_str code ''classDiagram'' \<or>
       includes_str code ''stateDiagram'' \<or> includes_str code ''erDiagram'' \<or>
       includes_str code ''gantt'' \<or> includes_str code ''pie'' \<or>
       includes_str code ''gitgraph'' \<or> includes_str code ''journey'' \<or>
       includes_str code ''requirement'' \<or> includes_str code ''C4Context'')"
    unfolding strategy3Keywords_def by (simp only: set_simps insert_iff empty_iff) blast
  have ne: "\<And>code k. k \<in> set strategy3Keywords \<Longrightarrow> includes_str code k \<Longrightarrow> code \<noteq> []"
    using strategy3Keywords_lower by (cases "code = []") auto
  show ?thesis
  proof (cases "preCodeText q")
    case None
    then show ?thesis by (simp add: strategy3_def)
  next
    case (Some code)
    show ?thesis
    proof (cases "\<exists>k. k \<in> set strategy3Keywords \<and> includes_str code k")
      case True
      then have "code \<noteq> []" using ne by blast
      with True Some show ?thesis
        unfolding strategy3_def kw [symmetric] by auto
    next
      case False
      with Some show ?thesis
        unfolding strategy3_def kw [symmetric] by auto
    qed
  qed
qed




section \<open>The normalizer gives the artifact a viewport\<close>

lemma getAttribute_setAttribute:
  "getAttribute (setAttribute el n v) m = (if m = n then Some v else getAttribute el m)"
  by (simp add: getAttribute_def setAttribute_def update_conv')

lemma ensureViewBox_viewBox:
  "getAttribute (ensureViewBox w h el) ''viewBox'' =
     (if \<not> truthy (getAttribute el ''viewBox'') \<and> truthy w \<and> truthy h
      then Some (''0 0 '' @ the w @ '' '' @ the h) else getAttribute el ''viewBox'')"
  by (simp add: ensureViewBox_def getAttribute_setAttribute)

lemma ensureViewBox_idem: "ensureViewBox w h (ensureViewBox w h el) = ensureViewBox w h el"
  by (simp add: ensureViewBox_def getAttribute_setAttribute truthy_def)

lemma normalizeElement_viewBox:
  "getAttribute (normalizeElement st el) ''viewBox'' =
     getAttribute (ensureViewBox (getAttribute el ''width'') (getAttribute el ''height'') el)
       ''viewBox''"
  by (simp add: normalizeElement_def Let_def ensureViewBox_idem getAttribute_setAttribute)

text \<open>
  C4. Let the markup parse without a parser error to a root element with non-empty
  \<^verbatim>\<open>width\<close> and \<^verbatim>\<open>height\<close> attributes, and let the host's parser read back what
  its serializer writes for the normalized element. Then the output of
  \<^const>\<open>generateHighQualitySvg\<close>, parsed again, has a non-empty \<^verbatim>\<open>viewBox\<close>: the one
  the input had if it had a non-empty one, else \<^verbatim>\<open>0 0 width height\<close>.
\<close>

theorem normalized_artifact_has_viewBox:
  assumes parses: "\<not> parserError (parseFromString host svgContent)"
    and root: "svgEl = documentElement (parseFromString host svgContent)"
    and width: "getAttribute svgEl ''width'' = Some w" "w \<noteq> []"
    and height: "getAttribute svgEl ''height'' = Some h" "h \<noteq> []"
    and reparse: "parseFromString host (serializeToString host (normalizeElement st svgEl))
                    = \<lparr>documentElement = normalizeElement st svgEl, parserError = False\<rparr>"
  shows "\<exists>v. getAttribute
               (documentElement (parseFromString host (generateHighQualitySvg host st svgContent)))
               ''viewBox'' = Some v
             \<and> v \<noteq> []
             \<and> v = (if truthy (getAttribute svgEl ''viewBox'')
                    then the (getAttribute svgEl ''viewBox'')
                    else ''0 0 '' @ w @ '' '' @ h)"
proof -
  have out: "generateHighQualitySvg host st svgContent
               = serializeToString host (normalizeElement st svgEl)"
    using parses root by (simp add: generateHighQualitySvg_def Let_def)
  have vb: "getAttribute (normalizeElement st svgEl) ''viewBox'' =
      (if truthy (getAttribute svgEl ''viewBox'') then getAttribute svgEl ''viewBox''
       else Some (''0 0 '' @ w @ '' '' @ h))"
    using width height by (simp add: normalizeElement_viewBox ensureViewBox_viewBox truthy_def)
  show ?thesis
    unfolding out reparse using vb
    by (cases "getAttribute svgEl ''viewBox''") (auto simp: truthy_def)
qed

theorem normalized_artifact_has_viewBox_witness:
  "\<not> parserError (parseFromString sampleHost (writeElement sampleElement))
   \<and> getAttribute sampleElement ''width'' = Some ''100''
   \<and> getAttribute sampleElement ''height'' = Some ''50''
   \<and> getAttribute
        (documentElement (parseFromString sampleHost
           (generateHighQualitySvg sampleHost DEFAULT_SETTINGS (writeElement sampleElement))))
        ''viewBox'' = Some ''0 0 100 50''"
proof -
  have p: "parseFromString sampleHost (writeElement sampleElement)
             = \<lparr>documentElement = sampleElement, parserError = False\<rparr>"
    by (simp add: sampleHost_def)
  have differ: "writeElement (normalizeElement DEFAULT_SETTINGS sampleElement)
                  \<noteq> writeElement sampleElement"
    by code_simp
  have h1: "\<not> parserError (parseFromString sampleHost (writeElement sampleElement))"
    by (simp add: p)
  have h2: "sampleElement = documentElement (parseFromString sampleHost (writeElement sampleElement))"
    by (simp add: p)
  have h3: "getAttribute sampleElement ''width'' = Some ''100''" by code_simp
  have h4: "getAttribute sampleElement ''height'' = Some ''50''" by code_simp
  have h5: "parseFromString sampleHost
              (serializeToString sampleHost (normalizeElement DEFAULT_SETTINGS sampleElement))
            = \<lparr>documentElement = normalizeElement DEFAULT_SETTINGS sampleElement,
               parserError = False\<rparr>"
    using differ by (simp add: sampleHost_def)
  have novb: "\<not> truthy (getAttribute sampleElement ''viewBox'')" by code_simp
  from normalized_artifact_has_viewBox [OF h1 h2 h3 _ h4 _ h5] novb h1 h3 h4
  show ?thesis by simp
qed

section \<open>How the trace grows\<close>

lemma onlyEmits_refl: "onlyEmits P s s"
  by (simp add: onlyEmits_def)

lemma onlyEmits_trans: "onlyEmits P s s1 \<Longrightarrow> onlyEmits P s1 s2 \<Longrightarrow> onlyEmits P s s2"
  by (auto simp: onlyEmits_def)

lemma onlyEmits_mono: "onlyEmits P s s' \<Longrightarrow> (\<And>e. P e \<Longrightarrow> Q e) \<Longrightarrow> onlyEmits Q s s'"
  by (auto simp: onlyEmits_def list_all_iff)

lemma onlyEmits_emits: "list_all P es \<Longrightarrow> onlyEmits P s (emits es s)"
  by (simp add: onlyEmits_def emits_def)

lemma onlyEmits_emits_after: "onlyEmits P s s1 \<Longrightarrow> list_all P es \<Longrightarrow> onlyEmits P s (emits es s1)"
  by (auto simp: onlyEmits_def emits_def)

lemma onlyEmits_call: "call e f s = (r, s') \<Longrightarrow> P e \<Longrightarrow> onlyEmits P s s'"
  by (auto simp: onlyEmits_def call_def split: prod.splits)

lemma onlyEmits_set: "onlyEmits P s s' \<Longrightarrow> e \<in> set (trace s') \<Longrightarrow> e \<in> set (trace s) \<or> P e"
  by (auto simp: onlyEmits_def list_all_iff)

lemma createParents_emits:
  "createParents host parts cur s = (r, s') \<Longrightarrow> onlyEmits (persistEvent b) s s'"
proof (induction parts arbitrary: cur s)
  case Nil
  then show ?case by (simp add: onlyEmits_refl)
next
  case (Cons part rest)
  define cp where "cp = (if cur \<noteq> [] then cur @ ''/'' @ part else part)"
  obtain r1 s1 where c1: "call (Exists cp) (adapterExists host cp) s = (r1, s1)"
    by (cases "call (Exists cp) (adapterExists host cp) s")
  have e1: "onlyEmits (persistEvent b) s s1" by (rule onlyEmits_call [OF c1]) simp
  show ?case
  proof (cases r1)
    case (Inl e)
    with Cons.prems c1 e1 show ?thesis by (simp add: cp_def Let_def)
  next
    case (Inr found)
    show ?thesis
    proof (cases found)
      case True
      with Inr Cons.prems c1 have "createParents host rest cp s1 = (r, s')"
        by (simp add: cp_def Let_def)
      from onlyEmits_trans [OF e1 Cons.IH [OF this]] show ?thesis .
    next
      case False
      obtain r2 s2 where c2: "call (CreateFolder cp) (createFolder host cp) s1 = (r2, s2)"
        by (cases "call (CreateFolder cp) (createFolder host cp) s1")
      have e2: "onlyEmits (persistEvent b) s s2"
        by (rule onlyEmits_trans [OF e1 onlyEmits_call [OF c2]]) simp
      show ?thesis
      proof (cases r2)
        case (Inl e)
        with False Inr Cons.prems c1 c2 e2 show ?thesis by (simp add: cp_def Let_def)
      next
        case inr: (Inr u)
        with False Inr Cons.prems c1 c2 have "createParents host rest cp s2 = (r, s')"
          by (simp add: cp_def Let_def)
        from onlyEmits_trans [OF e2 Cons.IH [OF this]] show ?thesis .
      qed
    qed
  qed
qed

lemma ensureDirectory_emits:
  assumes "ensureDirectory host dirPath s = (r, s')"
  shows "onlyEmits (persistEvent b) s s'"
proof (cases "dirPath = []")
  case True
  with assms show ?thesis by (simp add: ensureDirectory_def onlyEmits_refl)
next
  case False
  obtain r1 s1 where c1: "call (Exists dirPath) (adapterExists host dirPath) s = (r1, s1)"
    by (cases "call (Exists dirPath) (adapterExists host dirPath) s")
  have e1: "onlyEmits (persistEvent b) s s1" by (rule onlyEmits_call [OF c1]) simp
  obtain r2 s2 where c2: "call (CreateFolder dirPath) (createFolder host dirPath) s1 = (r2, s2)"
    by (cases "call (CreateFolder dirPath) (createFolder host dirPath) s1")
  have e2: "onlyEmits (persistEvent b) s s2"
    by (rule onlyEmits_trans [OF e1 onlyEmits_call [OF c2]]) simp
  show ?thesis
  proof (cases r1)
    case (Inl e)
    with False assms c1 e1 show ?thesis by (simp add: ensureDirectory_def)
  next
    case (Inr dirExists)
    show ?thesis
    proof (cases dirExists)
      case True
      with Inr False assms c1 e1 show ?thesis by (simp add: ensureDirectory_def)
    next
      case no: False
      show ?thesis
      proof (cases r2)
        case (Inl folderError)
        with no Inr False assms c1 c2
        have "createParents host (filter (\<lambda>p. p \<noteq> []) (splitChar CHR ''/'' dirPath)) [] s2 = (r, s')"
          by (simp add: ensureDirectory_def)
        from onlyEmits_trans [OF e2 createParents_emits [OF this]] show ?thesis .
      next
        case inr: (Inr u)
        with no Inr False assms c1 c2 e2 show ?thesis by (simp add: ensureDirectory_def)
      qed
    qed
  qed
qed

lemma saveToVault_emits:
  assumes "saveToVault host st b filename s = (r, s')"
  shows "onlyEmits (persistEvent b) s s'"
proof -
  obtain r1 s1 where d: "ensureDirectory host (normalizedPath st) s = (r1, s1)"
    by (cases "ensureDirectory host (normalizedPath st) s")
  have e1: "onlyEmits (persistEvent b) s s1" by (rule ensureDirectory_emits [OF d])
  show ?thesis
  proof (cases r1)
    case (Inl e)
    with assms d e1 show ?thesis by (simp add: saveToVault_def Let_def)
  next
    case (Inr u)
    with assms d
    have "call (CreateBinary (normalizedPath st @ filename) b)
            (createBinary host (normalizedPath st @ filename) b) s1 = (r, s')"
      by (simp add: saveToVault_def Let_def)
    from onlyEmits_trans [OF e1 onlyEmits_call [OF this]] show ?thesis by simp
  qed
qed

lemma downloadFileBody_emits:
  assumes "downloadFileBody host st content filename mime s = (r, s')"
  shows "onlyEmits (persistEvent (contentBlob content mime)) s s'"
proof -
  let ?b = "contentBlob content mime"
  show ?thesis
  proof (cases "defaultExportLocation st \<noteq> [] \<and> trim (defaultExportLocation st) \<noteq> []")
    case False
    with assms have "call (BrowserDownload filename ?b) (browserDownload host ?b filename) s = (r, s')"
      by (auto simp: downloadFileBody_def Let_def)
    from onlyEmits_call [OF this] show ?thesis by simp
  next
    case True
    obtain r1 s1 where v: "saveToVault host st ?b filename s = (r1, s1)"
      by (cases "saveToVault host st ?b filename s")
    have e1: "onlyEmits (persistEvent ?b) s s1" by (rule saveToVault_emits [OF v])
    show ?thesis
    proof (cases r1)
      case (Inr u)
      with True assms v e1 show ?thesis by (simp add: downloadFileBody_def Let_def)
    next
      case (Inl vaultError)
      let ?s2 = "emits [ConsoleWarn ''Mermaid Exporter: Failed to save to vault, falling back to browser download:'',
                        Notice ''Could not save to vault location, using browser download instead'' 3000] s1"
      have e2: "onlyEmits (persistEvent ?b) s ?s2"
        by (rule onlyEmits_emits_after [OF e1]) simp
      from Inl True assms v
      have "call (BrowserDownload filename ?b) (browserDownload host ?b filename) ?s2 = (r, s')"
        by (simp add: downloadFileBody_def Let_def)
      from onlyEmits_trans [OF e2 onlyEmits_call [OF this]] show ?thesis by simp
    qed
  qed
qed

lemma downloadFile_emits:
  assumes "downloadFile host st content filename mime s = (r, s')"
  shows "onlyEmits (persistEvent (contentBlob content mime)) s s'"
proof -
  obtain r1 s1 where b: "downloadFileBody host st content filename mime s = (r1, s1)"
    by (cases "downloadFileBody host st content filename mime s")
  have e1: "onlyEmits (persistEvent (contentBlob content mime)) s s1"
    by (rule downloadFileBody_emits [OF b])
  show ?thesis
  proof (cases r1)
    case (Inr u)
    with assms b e1 show ?thesis by (simp add: downloadFile_def)
  next
    case (Inl error)
    with assms b have "s' = emits [ConsoleError ''Mermaid Exporter: Download error:''] s1"
      by (simp add: downloadFile_def)
    with onlyEmits_emits_after [OF e1] show ?thesis by simp
  qed
qed

lemma convertSvgToRaster_emits:
  assumes "convertSvgToRaster host st svgContent filename format s = (r, s')"
  shows "onlyEmits (\<lambda>e. rasterEvent e \<or> (\<exists>b. persistEvent b e)) s s'"
proof -
  let ?P = "\<lambda>e. rasterEvent e \<or> (\<exists>b. persistEvent b e)"
  obtain width height where wh:
    "rasterSize st (documentElement (parseFromString (domServices host) svgContent)) = (width, height)"
    by (cases "rasterSize st (documentElement (parseFromString (domServices host) svgContent))")
  let ?mime = "if format = ''png'' then ''image/png'' else ''image/jpeg''"
  let ?quality = "if format = ''jpeg'' then Some (92 / 100 :: rat) else None"
  let ?s1 = "emits [LoadImage svgContent] s"
  let ?s2 = "emits [Canvas width height] ?s1"
  let ?s3 = "emits [ToBlob ?mime ?quality] ?s2"
  have e1: "onlyEmits ?P s ?s1" by (rule onlyEmits_emits) simp
  have e2: "onlyEmits ?P s ?s2" by (rule onlyEmits_emits_after [OF e1]) simp
  have e3: "onlyEmits ?P s ?s3" by (rule onlyEmits_emits_after [OF e2]) simp
  show ?thesis
  proof (cases "imageLoads host svgContent (world ?s1)")
    case False
    with assms wh e1 show ?thesis by (simp add: convertSvgToRaster_def Let_def)
  next
    case True
    show ?thesis
    proof (cases "canvasContext host (world ?s2)")
      case False
      with True assms wh e2 show ?thesis by (simp add: convertSvgToRaster_def Let_def)
    next
      case ctx: True
      show ?thesis
      proof (cases "canvasToBlob host width height svgContent ?mime ?quality (world ?s3)")
        case None
        with ctx True assms wh e3 show ?thesis by (simp add: convertSvgToRaster_def Let_def)
      next
        case (Some blob)
        with ctx True assms wh
        have "downloadFile host st (BlobContent blob) filename (Some ?mime) ?s3 = (r, s')"
          by (simp add: convertSvgToRaster_def Let_def)
        from downloadFile_emits [OF this]
        have "onlyEmits ?P ?s3 s'" by (rule onlyEmits_mono) blast
        from onlyEmits_trans [OF e3 this] show ?thesis .
      qed
    qed
  qed
qed

lemma renderMermaidToSvg_emits:
  assumes "renderMermaidToSvg host code s = (r, s')"
  shows "onlyEmits (\<lambda>e. e = Render code \<or> e = StagingAttached \<or> e = StagingRemoved
                        \<or> (\<exists>m. e = ConsoleError m)) s s'"
proof -
  let ?P = "\<lambda>e. e = Render code \<or> e = StagingAttached \<or> e = StagingRemoved \<or> (\<exists>m. e = ConsoleError m)"
  obtain r1 s1 where c: "call (Render code) (mermaidRender host code) (emits [StagingAttached] s) = (r1, s1)"
    by (cases "call (Render code) (mermaidRender host code) (emits [StagingAttached] s)")
  have e0: "onlyEmits ?P s (emits [StagingAttached] s)" by (rule onlyEmits_emits) simp
  have e1: "onlyEmits ?P s s1" by (rule onlyEmits_trans [OF e0 onlyEmits_call [OF c]]) simp
  show ?thesis
  proof (cases r1)
    case (Inl error)
    with assms c have "s' = emits ([StagingRemoved, ConsoleError ''Mermaid Exporter: Rendering error:'']
                        @ (case error of Error m \<Rightarrow> [ConsoleError ''Error details:'']
                                       | Thrown v \<Rightarrow> [])) s1"
      by (simp add: renderMermaidToSvg_def)
    moreover have "onlyEmits ?P s (emits ([StagingRemoved, ConsoleError ''Mermaid Exporter: Rendering error:'']
                        @ (case error of Error m \<Rightarrow> [ConsoleError ''Error details:'']
                                       | Thrown v \<Rightarrow> [])) s1)"
      by (rule onlyEmits_emits_after [OF e1]) (simp split: jsError.splits)
    ultimately show ?thesis by simp
  next
    case (Inr svg)
    show ?thesis
    proof (cases "svg = [] \<or> length (trim svg) = 0")
      case True
      with Inr assms c have "s' = emits [StagingRemoved,
                             ConsoleError ''Mermaid Exporter: Rendering error:'',
                             ConsoleError ''Error details:''] s1"
        by (auto simp: renderMermaidToSvg_def)
      with onlyEmits_emits_after [OF e1] show ?thesis by simp
    next
      case False
      with Inr assms c have "s' = emits [StagingRemoved] s1"
        by (auto simp: renderMermaidToSvg_def)
      with onlyEmits_emits_after [OF e1] show ?thesis by simp
    qed
  qed
qed

lemma exportArtifact_emits:
  assumes "exportArtifact host st hq filename s = (r, s')"
  shows "onlyEmits (\<lambda>e. rasterEvent e \<or> (\<exists>b. persistEvent b e)) s s'"
proof -
  let ?P = "\<lambda>e. rasterEvent e \<or> (\<exists>b. persistEvent b e)"
  let ?format = "if exportFormat st \<noteq> [] then exportFormat st else ''svg''"
  show ?thesis
  proof (cases "?format \<noteq> ''svg'' \<and> (?format = ''png'' \<or> ?format = ''jpeg'')")
    case True
    with assms have "convertSvgToRaster host st hq filename ?format s = (r, s')"
      by (auto simp: exportArtifact_def Let_def)
    from convertSvgToRaster_emits [OF this] show ?thesis .
  next
    case False
    with assms have "downloadFile host st (Str hq) filename (Some ''image/svg+xml;charset=utf-8'') s = (r, s')"
      by (auto simp: exportArtifact_def Let_def split: if_splits)
    from downloadFile_emits [OF this] show ?thesis by (rule onlyEmits_mono) blast
  qed
qed

lemma finishExport_emits:
  "onlyEmits (\<lambda>e. (\<exists>m t. e = Notice m t) \<or> e = HideLoadingNotice
                 \<or> (\<exists>m. e = ConsoleError m) \<or> (\<exists>m. e = ConsoleLog m)) s2 (finishExport filename (r, s2))"
  by (cases r) (auto simp: finishExport_def intro!: onlyEmits_emits)

section \<open>No render without validation\<close>

lemma nonEmptyTrimmed_Some: "nonEmptyTrimmed code = Some t \<Longrightarrow> t \<noteq> []"
  by (auto simp: nonEmptyTrimmed_def split: if_splits)

lemma firstValidated_Some: "firstValidated codes = Some t \<Longrightarrow> t \<noteq> [] \<and> validateMermaidCode t"
  by (induction codes) (auto split: if_splits)

lemma firstValidBlock_Some: "firstValidBlock ms = Some t \<Longrightarrow> t \<noteq> [] \<and> validateMermaidCode t"
  by (induction ms) (auto simp: Let_def split: if_splits)

lemma strategy7Loop_Some: "strategy7Loop cs = Some t \<Longrightarrow> t \<noteq> [] \<and> validateMermaidCode t"
  by (induction cs rule: strategy7Loop.induct) (auto split: if_splits)

lemma validate_nonempty: "validateMermaidCode t \<Longrightarrow> t \<noteq> []"
  by (auto simp: validateMermaidCode_def)

lemma orElse_Some: "orElse a b = Some t \<Longrightarrow> a = Some t \<or> b = Some t"
  by (auto simp: orElse_def split: option.splits)

lemma orElse_cases:
  assumes "orElse a b = Some t"
  obtains "a = Some t" | "b = Some t"
  using orElse_Some [OF assms] by blast

lemma strategy1_Some:
  assumes "strategy1 q = Some t"
  shows "t \<noteq> []"
proof -
  let ?a = "case taggedCodeText q of Some code \<Rightarrow> nonEmptyTrimmed code | None \<Rightarrow> None"
  let ?b = "case editorContainerCodes q of Some codes \<Rightarrow> firstValidated codes | None \<Rightarrow> None"
  let ?c = "case orElseStr (dataCode q) (orElseStr (dataMermaidCode q) (dataSource q)) of
              Some dc \<Rightarrow> nonEmptyTrimmed dc | None \<Rightarrow> None"
  from assms have "orElse ?a (orElse ?b ?c) = Some t"
    by (cases "isPreviewBlock q") (simp_all add: strategy1_def)
  then consider "?a = Some t" | "?b = Some t" | "?c = Some t"
    by (elim orElse_cases) blast+
  then show ?thesis
  proof cases
    case 1
    then show ?thesis by (cases "taggedCodeText q") (simp_all add: nonEmptyTrimmed_Some)
  next
    case 2
    then show ?thesis by (cases "editorContainerCodes q") (simp_all add: firstValidated_Some)
  next
    case 3
    then show ?thesis
      by (cases "orElseStr (dataCode q) (orElseStr (dataMermaidCode q) (dataSource q))")
         (simp_all add: nonEmptyTrimmed_Some)
  qed
qed

lemma strategy3_nonempty:
  assumes "strategy3 q = Some t"
  shows "t \<noteq> []"
proof -
  from assms obtain code k where "t = trim code" "k \<in> set strategy3Keywords" "includes_str code k"
    unfolding strategy3_Some by blast
  with strategy3_keyword_validates [of k code] have "validateMermaidCode t" by simp
  then show ?thesis by (rule validate_nonempty)
qed

lemma extractMermaidCode_nonempty:
  assumes "extractMermaidCode q = Some code"
  shows "code \<noteq> []"
proof -
  from assms have "orElse (strategy1 q) (orElse (strategy2 q) (orElse (strategy3 q)
      (orElse (strategy4 q) (orElse (strategy5 q) (orElse (strategy6 q) (strategy7 q))))))
      = Some code"
    by (simp add: extractMermaidCode_def)
  then consider "strategy1 q = Some code" | "strategy2 q = Some code"
    | "strategy3 q = Some code" | "strategy4 q = Some code" | "strategy5 q = Some code"
    | "strategy6 q = Some code" | "strategy7 q = Some code"
    by (elim orElse_cases) blast+
  then show ?thesis
  proof cases
    case 1 then show ?thesis by (rule strategy1_Some)
  next
    case 2 then show ?thesis
      by (cases "taggedCodeText q") (simp_all add: strategy2_def nonEmptyTrimmed_Some)
  next
    case 3 then show ?thesis by (rule strategy3_nonempty)
  next
    case 4 then show ?thesis
      by (cases "isCodeElement q") (simp_all add: strategy4_def nonEmptyTrimmed_Some)
  next
    case 5
    show ?thesis
    proof (cases "svgContainer q")
      case None
      with 5 show ?thesis by (simp add: strategy5_def)
    next
      case (Some c)
      with 5 consider
        "(case containerCodeText c of Some code \<Rightarrow> nonEmptyTrimmed code | None \<Rightarrow> None) = Some code"
        | "(case editorViewCodes c of Some codes \<Rightarrow> firstValidated codes | None \<Rightarrow> None) = Some code"
        unfolding strategy5_def by (simp, elim orElse_cases) blast+
      then show ?thesis
      proof cases
        case 1
        then show ?thesis by (cases "containerCodeText c") (simp_all add: nonEmptyTrimmed_Some)
      next
        case 2
        then show ?thesis by (cases "editorViewCodes c") (simp_all add: firstValidated_Some)
      qed
    qed
  next
    case 6 then show ?thesis
      by (cases "editorBlocks q") (simp_all add: strategy6_def firstValidBlock_Some)
  next
    case 7 then show ?thesis
      by (simp add: strategy7_def strategy7Loop_Some)
  qed
qed

lemma handleExportClick_renders_valid_only:
  "onlyEmits (\<lambda>e. \<forall>c. e = Render c \<longrightarrow> validateMermaidCode c) s (handleExportClick host st q s)"
proof -
  let ?P = "\<lambda>e. \<forall>c. e = Render c \<longrightarrow> validateMermaidCode c"
  let ?s0 = "emits [Notice ''Exporting Mermaid diagram...'' 0] s"
  have e0: "onlyEmits ?P s ?s0" by (rule onlyEmits_emits) simp
  show ?thesis
  proof (cases "extractMermaidCode q = None \<or> extractMermaidCode q = Some []")
    case True
    then have "handleExportClick host st q s = emits [HideLoadingNotice,
                  Notice ''Error: Could not find Mermaid diagram source code'' 5000,
                  ConsoleError ''Mermaid Exporter: Could not extract Mermaid code from element:''] ?s0"
      by (auto simp: handleExportClick_def Let_def)
    with onlyEmits_emits_after [OF e0] show ?thesis by simp
  next
    case False
    then obtain code where code: "extractMermaidCode q = Some code" "code \<noteq> []" by auto
    show ?thesis
    proof (cases "validateMermaidCode code")
      case False
      with code have "handleExportClick host st q s = emits [HideLoadingNotice,
                  Notice ''Error: Invalid Mermaid diagram code'' 5000,
                  ConsoleError ''Mermaid Exporter: Invalid Mermaid code:''] ?s0"
        by (simp add: handleExportClick_def Let_def)
      with onlyEmits_emits_after [OF e0] show ?thesis by simp
    next
      case True
      obtain r s1 where ren: "renderMermaidToSvg host code ?s0 = (r, s1)"
        by (cases "renderMermaidToSvg host code ?s0")
      have "onlyEmits ?P ?s0 s1"
        by (rule onlyEmits_mono [OF renderMermaidToSvg_emits [OF ren]]) (use True in auto)
      with e0 have e1: "onlyEmits ?P s s1" by (rule onlyEmits_trans)
      show ?thesis
      proof (cases "r = None \<or> r = Some []")
        case bad: True
        with True code ren have "handleExportClick host st q s = emits [HideLoadingNotice,
                         Notice ''Error: Failed to render Mermaid diagram'' 5000,
                         ConsoleError ''Mermaid Exporter: Failed to render Mermaid diagram''] s1"
          by (auto simp: handleExportClick_def Let_def)
        with onlyEmits_emits_after [OF e1] show ?thesis by simp
      next
        case good: False
        let ?hq = "generateHighQualitySvg (domServices host) st (the r)"
        let ?fn = "generateFilename st (activeFile host (world s1)) (now host (world s1))"
        obtain r2 s2 where ex: "exportArtifact host st ?hq ?fn s1 = (r2, s2)"
          by (cases "exportArtifact host st ?hq ?fn s1")
        have "\<And>e. rasterEvent e \<or> (\<exists>b. persistEvent b e) \<Longrightarrow> ?P e"
        proof -
          fix e assume "rasterEvent e \<or> (\<exists>b. persistEvent b e)"
          then show "?P e" by (cases e) auto
        qed
        with exportArtifact_emits [OF ex]
        have "onlyEmits ?P s1 s2" by (rule onlyEmits_mono)
        with e1 have e2: "onlyEmits ?P s s2" by (rule onlyEmits_trans)
        have "onlyEmits ?P s2 (finishExport ?fn (r2, s2))"
          by (rule onlyEmits_mono [OF finishExport_emits]) auto
        with e2 have "onlyEmits ?P s (finishExport ?fn (r2, s2))" by (rule onlyEmits_trans)
        moreover from good True code ren ex
        have "handleExportClick host st q s = finishExport ?fn (r2, s2)"
          by (auto simp: handleExportClick_def Let_def)
        ultimately show ?thesis by simp
      qed
    qed
  qed
qed

text \<open>
  C2. Whatever the host, the settings and the diagram element, every call of the
  rendering engine that an export makes is for a source text that
  \<^const>\<open>validateMermaidCode\<close> accepts. When the recovered text is rejected, the
  operation is over after the notice of the invalid code: it has touched nothing of the
  host and has made no call at all. \<^verbatim>\<open>"not a diagram"\<close> is such a text.
\<close>

theorem rejected_source_is_never_rendered:
  "onlyEmits (\<lambda>e. \<forall>c. e = Render c \<longrightarrow> validateMermaidCode c) s (handleExportClick host st q s)
   \<and> (extractMermaidCode q = Some code \<and> \<not> validateMermaidCode code \<longrightarrow>
        handleExportClick host st q s =
          emits [Notice ''Exporting Mermaid diagram...'' 0,
                 HideLoadingNotice,
                 Notice ''Error: Invalid Mermaid diagram code'' 5000,
                 ConsoleError ''Mermaid Exporter: Invalid Mermaid code:''] s)
   \<and> extractMermaidCode (lookupsWith ''not a diagram'') = Some ''not a diagram''
   \<and> \<not> validateMermaidCode ''not a diagram''"
proof -
  have halt: "handleExportClick host st q s =
          emits [Notice ''Exporting Mermaid diagram...'' 0,
                 HideLoadingNotice,
                 Notice ''Error: Invalid Mermaid diagram code'' 5000,
                 ConsoleError ''Mermaid Exporter: Invalid Mermaid code:''] s"
    if "extractMermaidCode q = Some code" "\<not> validateMermaidCode code"
    using that extractMermaidCode_nonempty [OF that(1)]
    by (simp add: handleExportClick_def Let_def emits_def)
  have ex1: "extractMermaidCode (lookupsWith ''not a diagram'') = Some ''not a diagram''"
    by code_simp
  have ex2: "\<not> validateMermaidCode ''not a diagram''" by code_simp
  from handleExportClick_renders_valid_only [of s host st q] halt ex1 ex2 show ?thesis by blast
qed

theorem rejected_source_is_never_rendered_witness:
  "trace (handleExportClick (switchHost True True) DEFAULT_SETTINGS
            (lookupsWith ''not a diagram'') (start ()))
     = [Notice ''Exporting Mermaid diagram...'' 0,
        HideLoadingNotice,
        Notice ''Error: Invalid Mermaid diagram code'' 5000,
        ConsoleError ''Mermaid Exporter: Invalid Mermaid code:'']
   \<and> notices (trace (handleExportClick (switchHost True True) DEFAULT_SETTINGS
                       (lookupsWith ''flowchart TD'') (start ())))
     = [''Exporting Mermaid diagram...'', ''Successfully exported: Design-2024-03-01T12-34-56.svg'']"
proof -
  have ok: "notices (trace (handleExportClick (switchHost True True) DEFAULT_SETTINGS
                       (lookupsWith ''flowchart TD'') (start ())))
     = [''Exporting Mermaid diagram...'', ''Successfully exported: Design-2024-03-01T12-34-56.svg'']"
    by code_simp
  from rejected_source_is_never_rendered
         [of "start ()" "switchHost True True" DEFAULT_SETTINGS "lookupsWith ''not a diagram''"
             "''not a diagram''"]
  have "handleExportClick (switchHost True True) DEFAULT_SETTINGS
            (lookupsWith ''not a diagram'') (start ())
          = emits [Notice ''Exporting Mermaid diagram...'' 0,
                 HideLoadingNotice,
                 Notice ''Error: Invalid Mermaid diagram code'' 5000,
                 ConsoleError ''Mermaid Exporter: Invalid Mermaid code:''] (start ())"
    by blast
  with ok show ?thesis by (simp add: emits_def start_def)
qed

section \<open>Formats other than the two raster formats\<close>

lemma notices_append: "notices (es @ fs) = notices es @ notices fs"
  by (induction es rule: notices.induct) simp_all

lemma deliveries_append: "deliveries (es @ fs) = deliveries es @ deliveries fs"
  by (induction es rule: deliveries.induct) simp_all

lemma persistEvent_deliveries:
  "list_all (persistEvent b) es \<Longrightarrow> list_all (\<lambda>x. x = b) (deliveries es)"
  by (induction es rule: deliveries.induct) simp_all

lemma persistEvent_not_raster: "persistEvent b e \<Longrightarrow> \<not> rasterEvent e"
  by (cases e) simp_all

text \<open>A step that persists \<open>b\<close> and hands it over at least once.\<close>

lemma delivers_after:
  assumes "onlyEmits (persistEvent b) s s1"
    and "\<exists>es. trace s2 = trace s1 @ es \<and> list_all (persistEvent b) es \<and> deliveries es \<noteq> []"
  shows "\<exists>es. trace s2 = trace s @ es \<and> list_all (persistEvent b) es \<and> deliveries es \<noteq> []"
proof -
  from assms(1) obtain es1 where 1: "trace s1 = trace s @ es1" "list_all (persistEvent b) es1"
    by (auto simp: onlyEmits_def)
  from assms(2) obtain es2 where 2: "trace s2 = trace s1 @ es2" "list_all (persistEvent b) es2"
    "deliveries es2 \<noteq> []" by blast
  from 1 2 have "trace s2 = trace s @ (es1 @ es2)" "list_all (persistEvent b) (es1 @ es2)"
    "deliveries (es1 @ es2) \<noteq> []" by (simp_all add: deliveries_append)
  then show ?thesis by blast
qed

lemma delivers_then:
  assumes "\<exists>es. trace s1 = trace s @ es \<and> list_all (persistEvent b) es \<and> deliveries es \<noteq> []"
    and "onlyEmits (persistEvent b) s1 s2"
  shows "\<exists>es. trace s2 = trace s @ es \<and> list_all (persistEvent b) es \<and> deliveries es \<noteq> []"
proof -
  from assms(1) obtain es1 where 1: "trace s1 = trace s @ es1" "list_all (persistEvent b) es1"
    "deliveries es1 \<noteq> []" by blast
  from assms(2) obtain es2 where 2: "trace s2 = trace s1 @ es2" "list_all (persistEvent b) es2"
    by (auto simp: onlyEmits_def)
  from 1 2 have "trace s2 = trace s @ (es1 @ es2)" "list_all (persistEvent b) (es1 @ es2)"
    "deliveries (es1 @ es2) \<noteq> []" by (simp_all add: deliveries_append)
  then show ?thesis by blast
qed

lemma call_BrowserDownload_delivers:
  assumes "call (BrowserDownload n b) f s = (r, s')"
  shows "\<exists>es. trace s' = trace s @ es \<and> list_all (persistEvent b) es \<and> deliveries es \<noteq> []"
proof -
  from assms have "trace s' = trace s @ [BrowserDownload n b]"
    by (auto simp: call_def split: prod.splits)
  then show ?thesis by (intro exI [of _ "[BrowserDownload n b]"]) simp
qed

lemma call_CreateBinary_delivers:
  assumes "call (CreateBinary p b) f s = (r, s')"
  shows "\<exists>es. trace s' = trace s @ es \<and> list_all (persistEvent b) es \<and> deliveries es \<noteq> []"
proof -
  from assms have "trace s' = trace s @ [CreateBinary p b]"
    by (auto simp: call_def split: prod.splits)
  then show ?thesis by (intro exI [of _ "[CreateBinary p b]"]) simp
qed

lemma saveToVault_delivers:
  assumes "saveToVault host st b filename s = (Inr u, s')"
  shows "\<exists>es. trace s' = trace s @ es \<and> list_all (persistEvent b) es \<and> deliveries es \<noteq> []"
proof -
  obtain r1 s1 where d: "ensureDirectory host (normalizedPath st) s = (r1, s1)"
    by (cases "ensureDirectory host (normalizedPath st) s")
  have e1: "onlyEmits (persistEvent b) s s1" by (rule ensureDirectory_emits [OF d])
  show ?thesis
  proof (cases r1)
    case (Inl e)
    with assms d show ?thesis by (simp add: saveToVault_def Let_def)
  next
    case (Inr v)
    with assms d
    have "call (CreateBinary (normalizedPath st @ filename) b)
            (createBinary host (normalizedPath st @ filename) b) s1 = (Inr u, s')"
      by (simp add: saveToVault_def Let_def)
    from delivers_after [OF e1 call_CreateBinary_delivers [OF this]] show ?thesis .
  qed
qed

lemma downloadFileBody_delivers:
  assumes "downloadFileBody host st content filename mime s = (r, s')"
  shows "\<exists>es. trace s' = trace s @ es \<and> list_all (persistEvent (contentBlob content mime)) es
              \<and> deliveries es \<noteq> []"
proof -
  let ?b = "contentBlob content mime"
  show ?thesis
  proof (cases "defaultExportLocation st \<noteq> [] \<and> trim (defaultExportLocation st) \<noteq> []")
    case False
    with assms have "call (BrowserDownload filename ?b) (browserDownload host ?b filename) s = (r, s')"
      by (auto simp: downloadFileBody_def Let_def)
    from call_BrowserDownload_delivers [OF this] show ?thesis .
  next
    case True
    obtain r1 s1 where v: "saveToVault host st ?b filename s = (r1, s1)"
      by (cases "saveToVault host st ?b filename s")
    have e1: "onlyEmits (persistEvent ?b) s s1" by (rule saveToVault_emits [OF v])
    show ?thesis
    proof (cases r1)
      case (Inr u)
      with True assms v have "s' = s1" by (simp add: downloadFileBody_def Let_def)
      with saveToVault_delivers [of host st ?b filename s u s1] v Inr show ?thesis by simp
    next
      case (Inl vaultError)
      let ?s2 = "emits [ConsoleWarn ''Mermaid Exporter: Failed to save to vault, falling back to browser download:'',
                        Notice ''Could not save to vault location, using browser download instead'' 3000] s1"
      have e2: "onlyEmits (persistEvent ?b) s ?s2"
        by (rule onlyEmits_emits_after [OF e1]) simp
      from Inl True assms v
      have "call (BrowserDownload filename ?b) (browserDownload host ?b filename) ?s2 = (r, s')"
        by (simp add: downloadFileBody_def Let_def)
      from delivers_after [OF e2 call_BrowserDownload_delivers [OF this]] show ?thesis .
    qed
  qed
qed

lemma downloadFile_delivers:
  assumes "downloadFile host st content filename mime s = (r, s')"
  shows "\<exists>es. trace s' = trace s @ es \<and> list_all (persistEvent (contentBlob content mime)) es
              \<and> deliveries es \<noteq> []"
proof -
  obtain r1 s1 where b: "downloadFileBody host st content filename mime s = (r1, s1)"
    by (cases "downloadFileBody host st content filename mime s")
  note d = downloadFileBody_delivers [OF b]
  show ?thesis
  proof (cases r1)
    case (Inr u)
    with assms b d show ?thesis by (simp add: downloadFile_def)
  next
    case (Inl error)
    with assms b have "s' = emits [ConsoleError ''Mermaid Exporter: Download error:''] s1"
      by (simp add: downloadFile_def)
    moreover have "onlyEmits (persistEvent (contentBlob content mime)) s1
                     (emits [ConsoleError ''Mermaid Exporter: Download error:''] s1)"
      by (rule onlyEmits_emits) simp
    ultimately show ?thesis using delivers_then [OF d] by simp
  qed
qed

lemma exportArtifact_other_format:
  assumes "exportFormat st \<noteq> ''png''" "exportFormat st \<noteq> ''jpeg''"
  shows "exportArtifact host st hq filename s
           = downloadFile host st (Str hq) filename (Some ''image/svg+xml;charset=utf-8'') s"
  using assms by (simp add: exportArtifact_def Let_def)

lemma renderMermaidToSvg_Some:
  "renderMermaidToSvg host code s = (Some svg, s1) \<Longrightarrow> svg \<noteq> []"
  by (auto simp: renderMermaidToSvg_def split: prod.splits sum.splits if_splits)

text \<open>
  The shape of every export: what comes before the format branch is a notice, a
  console line or the rendering of a validated source; what the branch does is left
  to the assumption on \<^const>\<open>exportArtifact\<close>.
\<close>

lemma handleExportClick_emits:
  assumes basic: "\<And>m t. P (Notice m t)" "P HideLoadingNotice" "\<And>m. P (ConsoleError m)"
      "\<And>m. P (ConsoleLog m)" "P StagingAttached" "P StagingRemoved"
    and render: "\<And>c. validateMermaidCode c \<Longrightarrow> P (Render c)"
    and branch: "\<And>hq fn s1 r s2. exportArtifact host st hq fn s1 = (r, s2) \<Longrightarrow> onlyEmits P s1 s2"
  shows "onlyEmits P s (handleExportClick host st q s)"
proof -
  let ?s0 = "emits [Notice ''Exporting Mermaid diagram...'' 0] s"
  have e0: "onlyEmits P s ?s0" by (rule onlyEmits_emits) (simp add: basic)
  show ?thesis
  proof (cases "extractMermaidCode q = None \<or> extractMermaidCode q = Some []")
    case True
    then have "handleExportClick host st q s = emits [HideLoadingNotice,
                  Notice ''Error: Could not find Mermaid diagram source code'' 5000,
                  ConsoleError ''Mermaid Exporter: Could not extract Mermaid code from element:''] ?s0"
      by (auto simp: handleExportClick_def Let_def)
    with onlyEmits_emits_after [OF e0] show ?thesis by (simp add: basic)
  next
    case False
    then obtain code where code: "extractMermaidCode q = Some code" "code \<noteq> []" by auto
    show ?thesis
    proof (cases "validateMermaidCode code")
      case False
      with code have "handleExportClick host st q s = emits [HideLoadingNotice,
                  Notice ''Error: Invalid Mermaid diagram code'' 5000,
                  ConsoleError ''Mermaid Exporter: Invalid Mermaid code:''] ?s0"
        by (simp add: handleExportClick_def Let_def)
      with onlyEmits_emits_after [OF e0] show ?thesis by (simp add: basic)
    next
      case True
      obtain r s1 where ren: "renderMermaidToSvg host code ?s0 = (r, s1)"
        by (cases "renderMermaidToSvg host code ?s0")
      have "onlyEmits P ?s0 s1"
        by (rule onlyEmits_mono [OF renderMermaidToSvg_emits [OF ren]])
           (use True basic render in auto)
      with e0 have e1: "onlyEmits P s s1" by (rule onlyEmits_trans)
      show ?thesis
      proof (cases "r = None \<or> r = Some []")
        case bad: True
        with True code ren have "handleExportClick host st q s = emits [HideLoadingNotice,
                         Notice ''Error: Failed to render Mermaid diagram'' 5000,
                         ConsoleError ''Mermaid Exporter: Failed to render Mermaid diagram''] s1"
          by (auto simp: handleExportClick_def Let_def)
        with onlyEmits_emits_after [OF e1] show ?thesis by (simp add: basic)
      next
        case good: False
        let ?hq = "generateHighQualitySvg (domServices host) st (the r)"
        let ?fn = "generateFilename st (activeFile host (world s1)) (now host (world s1))"
        obtain r2 s2 where ex: "exportArtifact host st ?hq ?fn s1 = (r2, s2)"
          by (cases "exportArtifact host st ?hq ?fn s1")
        from e1 branch [OF ex] have e2: "onlyEmits P s s2" by (rule onlyEmits_trans)
        have "onlyEmits P s2 (finishExport ?fn (r2, s2))"
          by (rule onlyEmits_mono [OF finishExport_emits]) (use basic in auto)
        with e2 have "onlyEmits P s (finishExport ?fn (r2, s2))" by (rule onlyEmits_trans)
        moreover from good True code ren ex
        have "handleExportClick host st q s = finishExport ?fn (r2, s2)"
          by (auto simp: handleExportClick_def Let_def)
        ultimately show ?thesis by simp
      qed
    qed
  qed
qed

lemma handleExportClick_reaches_branch:
  assumes "extractMermaidCode q = Some code" "validateMermaidCode code"
    and "renderMermaidToSvg host code (emits [Notice ''Exporting Mermaid diagram...'' 0] s) = (Some svg, s1)"
  shows "handleExportClick host st q s =
           finishExport (generateFilename st (activeFile host (world s1)) (now host (world s1)))
             (exportArtifact host st (generateHighQualitySvg (domServices host) st svg)
                (generateFilename st (activeFile host (world s1)) (now host (world s1))) s1)"
  using assms validate_nonempty [OF assms(2)] renderMermaidToSvg_Some [OF assms(3)]
  by (simp add: handleExportClick_def Let_def)

text \<open>
  C10. Let the configured format be neither \<^verbatim>\<open>png\<close> nor \<^verbatim>\<open>jpeg\<close> (an unknown or an
  empty format included). Then the format branch is the download of the vector markup
  with the type \<^verbatim>\<open>image/svg+xml;charset=utf-8\<close>; in the whole export no image is
  loaded and no canvas is made, and every blob handed to the vault or to the browser
  download is text of that type. When the export gets as far as the branch, it hands
  over the normalized markup at least once, and nothing else.
\<close>

theorem other_formats_are_delivered_as_svg:
  assumes "exportFormat st \<noteq> ''png''" "exportFormat st \<noteq> ''jpeg''"
  shows "exportArtifact host st hq filename s
           = downloadFile host st (Str hq) filename (Some ''image/svg+xml;charset=utf-8'') s
    \<and> onlyEmits (\<lambda>e. \<not> rasterEvent e \<and>
                      (\<forall>p b. e = CreateBinary p b \<or> e = BrowserDownload p b \<longrightarrow>
                         mimeType b = ''image/svg+xml;charset=utf-8'' \<and> (\<exists>t. payload b = TextData t)))
         s (handleExportClick host st q s)
    \<and> (extractMermaidCode q = Some code \<and> validateMermaidCode code \<and>
        renderMermaidToSvg host code (emits [Notice ''Exporting Mermaid diagram...'' 0] s)
          = (Some svg, s1) \<longrightarrow>
        (\<exists>es. trace (handleExportClick host st q s) = trace s1 @ es
             \<and> deliveries es \<noteq> []
             \<and> list_all (\<lambda>b. b = \<lparr>payload = TextData (generateHighQualitySvg (domServices host) st svg),
                                   mimeType = ''image/svg+xml;charset=utf-8''\<rparr>) (deliveries es)
             \<and> list_all (\<lambda>e. \<not> rasterEvent e) es))"
proof (intro conjI impI)
  show "exportArtifact host st hq filename s
          = downloadFile host st (Str hq) filename (Some ''image/svg+xml;charset=utf-8'') s"
    by (rule exportArtifact_other_format [OF assms])
next
  let ?P = "\<lambda>e. \<not> rasterEvent e \<and>
                      (\<forall>p b. e = CreateBinary p b \<or> e = BrowserDownload p b \<longrightarrow>
                         mimeType b = ''image/svg+xml;charset=utf-8'' \<and> (\<exists>t. payload b = TextData t))"
  have branch: "onlyEmits ?P s1 s2" if "exportArtifact host st hq fn s1 = (r, s2)"
    for hq fn s1 r and s2 :: "'a state"
  proof -
    from that have "downloadFile host st (Str hq) fn (Some ''image/svg+xml;charset=utf-8'') s1 = (r, s2)"
      by (simp add: exportArtifact_other_format [OF assms])
    from downloadFile_emits [OF this] show ?thesis
    proof (rule onlyEmits_mono)
      fix e
      assume "persistEvent (contentBlob (Str hq) (Some ''image/svg+xml;charset=utf-8'')) e"
      then show "?P e" by (cases e) (auto simp: contentBlob_def)
    qed
  qed
  show "onlyEmits ?P s (handleExportClick host st q s)"
  proof (rule handleExportClick_emits)
    show "\<And>hq fn s1 r s2. exportArtifact host st hq fn s1 = (r, s2) \<Longrightarrow> onlyEmits ?P s1 s2"
      by (rule branch)
  qed simp_all
next
  assume "extractMermaidCode q = Some code \<and> validateMermaidCode code \<and>
        renderMermaidToSvg host code (emits [Notice ''Exporting Mermaid diagram...'' 0] s)
          = (Some svg, s1)"
  then have h: "extractMermaidCode q = Some code" "validateMermaidCode code"
    "renderMermaidToSvg host code (emits [Notice ''Exporting Mermaid diagram...'' 0] s) = (Some svg, s1)"
    by auto
  let ?hq = "generateHighQualitySvg (domServices host) st svg"
  let ?fn = "generateFilename st (activeFile host (world s1)) (now host (world s1))"
  let ?b = "\<lparr>payload = TextData ?hq, mimeType = ''image/svg+xml;charset=utf-8''\<rparr>"
  obtain r2 s2 where dl: "downloadFile host st (Str ?hq) ?fn (Some ''image/svg+xml;charset=utf-8'') s1 = (r2, s2)"
    by (cases "downloadFile host st (Str ?hq) ?fn (Some ''image/svg+xml;charset=utf-8'') s1")
  have cb: "contentBlob (Str ?hq) (Some ''image/svg+xml;charset=utf-8'') = ?b"
    by (simp add: contentBlob_def)
  from downloadFile_delivers [OF dl] obtain es1 where
    1: "trace s2 = trace s1 @ es1" "list_all (persistEvent ?b) es1" "deliveries es1 \<noteq> []"
    unfolding cb by blast
  have whole: "handleExportClick host st q s = finishExport ?fn (r2, s2)"
    using handleExportClick_reaches_branch [OF h] dl
    by (simp add: exportArtifact_other_format [OF assms])
  have "\<exists>es2. trace (finishExport ?fn (r2, s2)) = trace s2 @ es2
           \<and> list_all (\<lambda>e. \<not> rasterEvent e) es2 \<and> deliveries es2 = []"
  proof (cases r2)
    case (Inl error)
    then show ?thesis
      by (intro exI [of _ "[Notice (''Export failed: '' @ errorMessage error) 5000,
                            ConsoleError ''Mermaid Exporter: Export error:'']"])
         (simp add: finishExport_def emits_def)
  next
    case (Inr u)
    then show ?thesis
      by (intro exI [of _ "[HideLoadingNotice,
                            Notice (''Successfully exported: '' @ ?fn) 3000,
                            ConsoleLog ''Mermaid Exporter: Successfully exported diagram:'']"])
         (simp add: finishExport_def emits_def)
  qed
  then obtain es2 where 2: "trace (finishExport ?fn (r2, s2)) = trace s2 @ es2"
    "list_all (\<lambda>e. \<not> rasterEvent e) es2" "deliveries es2 = []"
    by blast
  from 1 2 whole have "trace (handleExportClick host st q s) = trace s1 @ (es1 @ es2)"
    "deliveries (es1 @ es2) \<noteq> []"
    "list_all (\<lambda>x. x = ?b) (deliveries (es1 @ es2))"
    "list_all (\<lambda>e. \<not> rasterEvent e) (es1 @ es2)"
    using persistEvent_deliveries [of ?b es1] persistEvent_not_raster [of ?b]
    by (auto simp: deliveries_append list_all_iff)
  then show "\<exists>es. trace (handleExportClick host st q s) = trace s1 @ es
             \<and> deliveries es \<noteq> []
             \<and> list_all (\<lambda>b. b = ?b) (deliveries es)
             \<and> list_all (\<lambda>e. \<not> rasterEvent e) es"
    by blast
qed

theorem other_formats_are_delivered_as_svg_witness:
  "exportFormat (DEFAULT_SETTINGS\<lparr>exportFormat := ''gif''\<rparr>) \<noteq> ''png''
   \<and> exportFormat (DEFAULT_SETTINGS\<lparr>exportFormat := ''gif''\<rparr>) \<noteq> ''jpeg''
   \<and> exportArtifact (switchHost True True) (DEFAULT_SETTINGS\<lparr>exportFormat := ''gif''\<rparr>)
        ''<svg/>'' ''d.gif'' (start ())
      = downloadFile (switchHost True True) (DEFAULT_SETTINGS\<lparr>exportFormat := ''gif''\<rparr>)
          (Str ''<svg/>'') ''d.gif'' (Some ''image/svg+xml;charset=utf-8'') (start ())
   \<and> map mimeType (deliveries (trace (handleExportClick (switchHost True True)
          (DEFAULT_SETTINGS\<lparr>exportFormat := ''gif''\<rparr>) (lookupsWith ''graph TD'') (start ()))))
      = [''image/svg+xml;charset=utf-8'']
   \<and> list_all (\<lambda>e. \<not> rasterEvent e) (trace (handleExportClick (switchHost True True)
          (DEFAULT_SETTINGS\<lparr>exportFormat := ''gif''\<rparr>) (lookupsWith ''graph TD'') (start ())))"
proof -
  have f1: "exportFormat (DEFAULT_SETTINGS\<lparr>exportFormat := ''gif''\<rparr>) \<noteq> ''png''" by simp
  have f2: "exportFormat (DEFAULT_SETTINGS\<lparr>exportFormat := ''gif''\<rparr>) \<noteq> ''jpeg''" by simp
  have d: "map mimeType (deliveries (trace (handleExportClick (switchHost True True)
          (DEFAULT_SETTINGS\<lparr>exportFormat := ''gif''\<rparr>) (lookupsWith ''graph TD'') (start ()))))
      = [''image/svg+xml;charset=utf-8'']"
    by code_simp
  have r: "list_all (\<lambda>e. \<not> rasterEvent e) (trace (handleExportClick (switchHost True True)
          (DEFAULT_SETTINGS\<lparr>exportFormat := ''gif''\<rparr>) (lookupsWith ''graph TD'') (start ())))"
    by code_simp
  from other_formats_are_delivered_as_svg [OF f1 f2, of "switchHost True True" "''<svg/>''" "''d.gif''" "start ()"]
  have "exportArtifact (switchHost True True) (DEFAULT_SETTINGS\<lparr>exportFormat := ''gif''\<rparr>)
        ''<svg/>'' ''d.gif'' (start ())
      = downloadFile (switchHost True True) (DEFAULT_SETTINGS\<lparr>exportFormat := ''gif''\<rparr>)
          (Str ''<svg/>'') ''d.gif'' (Some ''image/svg+xml;charset=utf-8'') (start ())"
    by blast
  with f1 f2 d r show ?thesis by blast
qed

section \<open>A vault that fails\<close>

lemma trim_Nil: "trim [] = []"
  by (simp add: trim_def)

text \<open>
  C5, as amended. Let a destination folder be configured (the setting does not trim to
  nothing) and let \<^const>\<open>saveToVault\<close> throw. Then \<^const>\<open>downloadFile\<close> logs a warning,
  shows the notice that the browser download is used instead and calls the browser
  download; it returns if that call returns, and throws
  \<^verbatim>\<open>Failed to download file: ...\<close> if that call throws too. The operation that ends
  with this \<^const>\<open>downloadFile\<close> shows the notice of success in the first case and the
  notice \<^verbatim>\<open>Export failed: ...\<close> in the second; the error of the vault is never what
  the operation ends with.
\<close>

theorem vault_failure_falls_back_to_browser_download:
  assumes loc: "trim (defaultExportLocation st) \<noteq> []"
    and fail: "saveToVault host st (contentBlob content mime) filename s = (Inl vaultError, s1)"
    and dl: "call (BrowserDownload filename (contentBlob content mime))
               (browserDownload host (contentBlob content mime) filename)
               (emits [ConsoleWarn ''Mermaid Exporter: Failed to save to vault, falling back to browser download:'',
                       Notice ''Could not save to vault location, using browser download instead'' 3000]
                  s1)
             = (r, s2)"
  shows "downloadFile host st content filename mime s =
           (case r of
              Inr u \<Rightarrow> (Inr (), s2)
            | Inl e \<Rightarrow> (Inl (Error (''Failed to download file: '' @ errorMessage e)),
                        emits [ConsoleError ''Mermaid Exporter: Download error:''] s2))
       \<and> notices (trace (finishExport filename (downloadFile host st content filename mime s)))
           = notices (trace s1)
             @ [''Could not save to vault location, using browser download instead'']
             @ (case r of
                  Inr u \<Rightarrow> [''Successfully exported: '' @ filename]
                | Inl e \<Rightarrow> [''Export failed: Failed to download file: '' @ errorMessage e])"
proof -
  from loc have ne: "defaultExportLocation st \<noteq> []" using trim_Nil by auto
  from ne loc fail dl
  have body: "downloadFileBody host st content filename mime s = (r, s2)"
    by (simp add: downloadFileBody_def Let_def)
  have whole: "downloadFile host st content filename mime s =
           (case r of
              Inr u \<Rightarrow> (Inr (), s2)
            | Inl e \<Rightarrow> (Inl (Error (''Failed to download file: '' @ errorMessage e)),
                        emits [ConsoleError ''Mermaid Exporter: Download error:''] s2))"
    by (cases r) (simp_all add: downloadFile_def body)
  from dl have t2: "trace s2 = trace s1
      @ [ConsoleWarn ''Mermaid Exporter: Failed to save to vault, falling back to browser download:'',
         Notice ''Could not save to vault location, using browser download instead'' 3000,
         BrowserDownload filename (contentBlob content mime)]"
    by (auto simp: call_def emits_def split: prod.splits)
  have "notices (trace (finishExport filename (downloadFile host st content filename mime s)))
           = notices (trace s1)
             @ [''Could not save to vault location, using browser download instead'']
             @ (case r of
                  Inr u \<Rightarrow> [''Successfully exported: '' @ filename]
                | Inl e \<Rightarrow> [''Export failed: Failed to download file: '' @ errorMessage e])"
    unfolding whole
    by (cases r) (simp_all add: finishExport_def emits_def t2 notices_append errorMessage_def)
  with whole show ?thesis by blast
qed

theorem vault_failure_falls_back_to_browser_download_witness:
  "trim (defaultExportLocation (DEFAULT_SETTINGS\<lparr>defaultExportLocation := ''Exports''\<rparr>)) \<noteq> []
   \<and> fst (saveToVault (switchHost False True) (DEFAULT_SETTINGS\<lparr>defaultExportLocation := ''Exports''\<rparr>)
            (contentBlob (Str ''<svg/>'') None) ''d.svg'' (start ()))
       = Inl (Error ''File already exists.'')
   \<and> notices (trace (finishExport ''d.svg''
        (downloadFile (switchHost False True) (DEFAULT_SETTINGS\<lparr>defaultExportLocation := ''Exports''\<rparr>)
           (Str ''<svg/>'') ''d.svg'' None (start ()))))
       = [''Could not save to vault location, using browser download instead'',
          ''Successfully exported: d.svg'']"
proof -
  let ?st = "DEFAULT_SETTINGS\<lparr>defaultExportLocation := ''Exports''\<rparr>"
  let ?b = "contentBlob (Str ''<svg/>'') None"
  let ?s1 = "\<lparr>world = (), trace = [Exists ''Exports/'', CreateFolder ''Exports/'',
                                     CreateBinary ''Exports/d.svg'' ?b]\<rparr>"
  let ?s2 = "\<lparr>world = (), trace = [Exists ''Exports/'', CreateFolder ''Exports/'',
       CreateBinary ''Exports/d.svg'' ?b,
       ConsoleWarn ''Mermaid Exporter: Failed to save to vault, falling back to browser download:'',
       Notice ''Could not save to vault location, using browser download instead'' 3000,
       BrowserDownload ''d.svg'' ?b]\<rparr>"
  have loc: "trim (defaultExportLocation ?st) \<noteq> []" by code_simp
  have fail: "saveToVault (switchHost False True) ?st ?b ''d.svg'' (start ())
                = (Inl (Error ''File already exists.''), ?s1)"
    by code_simp
  have dl: "call (BrowserDownload ''d.svg'' ?b) (browserDownload (switchHost False True) ?b ''d.svg'')
               (emits [ConsoleWarn ''Mermaid Exporter: Failed to save to vault, falling back to browser download:'',
                       Notice ''Could not save to vault location, using browser download instead'' 3000]
                  ?s1)
             = (Inr (), ?s2)"
    by code_simp
  from vault_failure_falls_back_to_browser_download [OF loc fail dl, THEN conjunct2]
  have "notices (trace (finishExport ''d.svg''
        (downloadFile (switchHost False True) ?st (Str ''<svg/>'') ''d.svg'' None (start ()))))
       = [''Could not save to vault location, using browser download instead'',
          ''Successfully exported: d.svg'']"
    by simp
  with loc fail show ?thesis by simp
qed

text \<open>
  C5, as stated, fails: with a folder configured, a vault that refuses the file and a
  browser download that throws, the export ends with the notice of its failure.
\<close>

theorem vault_and_download_failure_fails_the_export:
  "notices (trace (handleExportClick (switchHost False False)
      (DEFAULT_SETTINGS\<lparr>defaultExportLocation := ''Exports''\<rparr>) (lookupsWith ''graph TD'') (start ())))
   = [''Exporting Mermaid diagram...'',
      ''Could not save to vault location, using browser download instead'',
      ''Export failed: Failed to download file: download blocked'']"
  by code_simp

section \<open>The size of the raster\<close>








section \<open>The filename\<close>

lemma expandTemplate_literal:
  "CHR ''$'' \<notin> set r \<Longrightarrow> expandTemplate r matched pre post = r"
  by (induction r matched pre post rule: expandTemplate.induct) auto

lemma replaceFrom_literal:
  "CHR ''$'' \<notin> set v \<Longrightarrow> replaceFrom pat v s i = substituteFrom pat v s i"
proof (induction pat v s i rule: replaceFrom.induct)
  case (1 pat replacement s i)
  show ?case
  proof (cases "pat = [] \<or> length s \<le> i")
    case True
    then show ?thesis by (subst replaceFrom.simps, subst substituteFrom.simps) simp
  next
    case False
    show ?thesis
    proof (cases "prefix pat (drop i s)")
      case True
      with False 1 show ?thesis
        by (subst replaceFrom.simps, subst substituteFrom.simps)
           (simp add: expandTemplate_literal)
    next
      case no: False
      with False 1 show ?thesis
        by (subst replaceFrom.simps, subst substituteFrom.simps) simp
    qed
  qed
qed

lemma replaceAll_literal:
  "CHR ''$'' \<notin> set v \<Longrightarrow> replaceAll pat v s = substitute pat v s"
  by (simp add: replaceAll_def substitute_def replaceFrom_literal)

lemma timestampOf_no_dollar:
  "CHR ''$'' \<notin> set (isoString clk) \<Longrightarrow> CHR ''$'' \<notin> set (timestampOf clk)"
  by (auto simp: timestampOf_def Let_def dest!: in_set_takeD)

lemma dateOf_no_dollar:
  "CHR ''$'' \<notin> set (isoString clk) \<Longrightarrow> CHR ''$'' \<notin> set (dateOf clk)"
  by (auto simp: dateOf_def dest!: set_takeWhileD)

lemma timeOf_no_dollar:
  "CHR ''$'' \<notin> set (timeString clk) \<Longrightarrow> CHR ''$'' \<notin> set (timeOf clk)"
  by (auto simp: timeOf_def dest!: set_takeWhileD)

text \<open>
  Where neither the note name nor the clock's texts hold a dollar sign, the filename is
  the template with the four placeholders substituted one after the other (note name,
  timestamp, date, time), and the extension added unless the result ends with it
  already.
\<close>

lemma generateFilename_substitutes:
  assumes "CHR ''$'' \<notin> set noteName" "CHR ''$'' \<notin> set (isoString clk)"
    "CHR ''$'' \<notin> set (timeString clk)"
  shows "generateFilename st (Some noteName) clk =
     (let template = (if filenameFormat st \<noteq> [] then filenameFormat st
                      else ''{noteName}-{timestamp}'');
          name = substitute ''{time}'' (timeOf clk)
                   (substitute ''{date}'' (dateOf clk)
                      (substitute ''{timestamp}'' (timestampOf clk)
                         (substitute ''{noteName}'' noteName template)));
          extension = (if exportFormat st \<noteq> [] then exportFormat st else ''svg'')
      in if endsWith name (''.'' @ extension) then name else name @ ''.'' @ extension)"
  using assms
  by (simp add: generateFilename_def Let_def replaceAll_literal timestampOf_no_dollar
        dateOf_no_dollar timeOf_no_dollar DEFAULT_SETTINGS_def)

lemma generateFilename_example:
  "dateOf sampleClock = ''2024-03-01''"
  "generateFilename (DEFAULT_SETTINGS\<lparr>filenameFormat := ''{noteName}-{date}''\<rparr>)
     (Some ''Design'') sampleClock = ''Design-2024-03-01.svg''"
  by code_simp+

text \<open>
  C6 at a note name with dollar signs. The template \<^verbatim>\<open>{noteName}-{date}\<close> and the note
  \<^verbatim>\<open>A$$B\<close> give \<^verbatim>\<open>A$B-2024-03-01.svg\<close>: the note name is used as the replacement
  template of \<^verbatim>\<open>String.prototype.replace\<close>, in which \<^verbatim>\<open>$$\<close> stands for one dollar
  sign and \<^verbatim>\<open>$&\<close> for the matched placeholder. Substituting the note name as it is
  gives \<^verbatim>\<open>A$$B-2024-03-01.svg\<close>.
\<close>

theorem generateFilename_rewrites_dollar_signs:
  "generateFilename (DEFAULT_SETTINGS\<lparr>filenameFormat := ''{noteName}-{date}''\<rparr>)
     (Some ''A$$B'') sampleClock = ''A$B-2024-03-01.svg''
   \<and> generateFilename (DEFAULT_SETTINGS\<lparr>filenameFormat := ''{noteName}-{date}''\<rparr>)
     (Some ''P&L $&'') sampleClock = ''P&L {noteName}-2024-03-01.svg''
   \<and> substitute ''{date}'' (dateOf sampleClock)
       (substitute ''{noteName}'' ''A$$B'' ''{noteName}-{date}'') @ ''.svg''
     = ''A$$B-2024-03-01.svg''"
  by code_simp

section \<open>The export control in its anchor\<close>

lemma existsIn_append: "existsIn P (xs @ ys) = (existsIn P xs \<or> existsIn P ys)"
  by (induction P xs rule: existsIn.induct) auto

lemma countIn_append: "countIn P (xs @ ys) = countIn P xs + countIn P ys"
  by (induction P xs rule: countIn.induct) auto

lemma countIn_zero: "countIn P xs = 0 \<longleftrightarrow> \<not> existsIn P xs"
  by (induction P xs rule: existsIn.induct) auto

lemma exportButton_is_one:
  "existsIn isExportButton [exportButton n]" "countIn isExportButton [exportButton n] = 1"
  by (simp_all add: exportButton_def indent_def)

lemma findDeep_None: "findDeep ks = None \<longleftrightarrow> \<not> existsIn isEditControl ks"
  by (induction ks rule: findDeep.induct) (auto split: option.splits)

lemma findDeep_Some: "findDeep ks = Some b \<Longrightarrow> existsIn isEditControl ks"
  using findDeep_None [of ks] by auto

lemma findEdit_None: "findEdit ks j = None \<longleftrightarrow> \<not> existsIn isEditControl ks"
proof (induction ks j rule: findEdit.induct)
  case (3 i t c a ks ns j)
  show ?case
  proof (cases "isEditControl (Element i t c a ks)")
    case True
    then show ?thesis by simp
  next
    case False
    show ?thesis
    proof (cases "findDeep ks")
      case None
      from "3.IH" [OF False None] have "findEdit ns (Suc j) = None \<longleftrightarrow> \<not> existsIn isEditControl ns" .
      moreover from None have "\<not> existsIn isEditControl ks" by (simp add: findDeep_None)
      ultimately show ?thesis using False None by (simp del: isEditControl.simps)
    next
      case (Some b)
      with False findDeep_Some [OF Some] show ?thesis by (simp del: isEditControl.simps)
    qed
  qed
qed simp_all

lemma findEdit_Direct:
  "findEdit ks j0 = Some (Direct j) \<Longrightarrow>
     j0 \<le> j \<and> j - j0 < length ks \<and> isEditControl (ks ! (j - j0))
     \<and> \<not> existsIn isEditControl (take (j - j0) ks)"
proof (induction ks j0 rule: findEdit.induct)
  case (1 j)
  then show ?case by simp
next
  case (2 s ns j0)
  then have "findEdit ns (Suc j0) = Some (Direct j)" by simp
  with 2 have ih: "Suc j0 \<le> j" "j - Suc j0 < length ns"
    "isEditControl (ns ! (j - Suc j0))" "\<not> existsIn isEditControl (take (j - Suc j0) ns)"
    by auto
  then have "j - j0 = Suc (j - Suc j0)" by simp
  with ih show ?case by simp
next
  case (3 i t c a ks ns j0)
  show ?case
  proof (cases "isEditControl (Element i t c a ks)")
    case True
    with 3 show ?thesis by simp
  next
    case False
    with "3.prems" have d: "findDeep ks = None" and f: "findEdit ns (Suc j0) = Some (Direct j)"
      by (auto split: option.splits)
    from "3.IH" [OF False d f] have ih: "Suc j0 \<le> j" "j - Suc j0 < length ns"
      "isEditControl (ns ! (j - Suc j0))" "\<not> existsIn isEditControl (take (j - Suc j0) ns)"
      by auto
    then have "j - j0 = Suc (j - Suc j0)" by simp
    with ih False d show ?thesis by (simp add: findDeep_None)
  qed
qed

text \<open>A second call changes nothing, and an anchor never gets a second control.\<close>

lemma addExportButton_idempotent:
  assumes "addExportButton n ks = Inr ks'"
  shows "existsIn isExportButton ks' \<and> addExportButton m ks' = Inr ks'
         \<and> countIn isExportButton ks'
             = (if existsIn isExportButton ks then countIn isExportButton ks else 1)"
proof (cases "existsIn isExportButton ks")
  case True
  with assms show ?thesis by (simp add: addExportButton_def)
next
  case False
  then have zero: "countIn isExportButton ks = 0" by (simp add: countIn_zero)
  have split: "countIn isExportButton (take j ks) + countIn isExportButton (drop j ks) = 0" for j
    using zero countIn_append [of isExportButton "take j ks" "drop j ks"] by simp
  from assms False have shape:
    "(\<exists>j. ks' = take j ks @ [exportButton n] @ drop j ks) \<or> ks' = ks @ [exportButton n]
      \<or> ks' = exportButton n # ks"
    by (auto simp: addExportButton_def split: option.splits hit.splits if_splits)
  then have ex: "existsIn isExportButton ks'" and one: "countIn isExportButton ks' = 1"
    using exportButton_is_one [of n] zero split
    by (auto simp: existsIn_append countIn_append exportButton_def)
  from ex have "addExportButton m ks' = Inr ks'" by (simp add: addExportButton_def)
  with ex one False show ?thesis by simp
qed

text \<open>Where the control goes when the first edit control is a child of the anchor.\<close>

lemma addExportButton_after_edit_child:
  assumes "\<not> existsIn isExportButton ks" "findEdit ks 0 = Some (Direct j)"
  shows "j < length ks \<and> isEditControl (ks ! j)
         \<and> addExportButton n ks = Inr (take (Suc j) ks @ [exportButton n] @ drop (Suc j) ks)"
proof -
  from findEdit_Direct [OF assms(2)] have j: "j < length ks" "isEditControl (ks ! j)" by auto
  from assms j have "addExportButton n ks = Inr (take (Suc j) ks @ [exportButton n] @ drop (Suc j) ks)"
    by (auto simp: addExportButton_def)
  with j show ?thesis by simp
qed

text \<open>Where it goes when there is no edit control in the anchor at all.\<close>

lemma addExportButton_at_start:
  assumes "\<not> existsIn isExportButton ks" "\<not> existsIn isEditControl ks"
  shows "addExportButton n ks = Inr (exportButton n # ks)"
  using assms findEdit_None [of ks 0] by (cases ks) (auto simp: addExportButton_def)

lemma addExportButton_hostAnchor:
  "addExportButton 10 hostAnchor =
     Inr [Element 1 ''div'' [''edit-block-button''] [(''aria-label'', ''Edit this block'')] [],
          exportButton 10,
          Element 2 ''button'' [''copy-code-button''] [] []]"
  by code_simp

text \<open>
  C7 at an anchor whose first edit control is not its child. In
  \<^const>\<open>nestedEditAnchor\<close> the edit control is the only child of a tool bar, and a code
  element follows the tool bar. The edit control has no next sibling, so the control is
  appended to the anchor: it ends up after the code element, neither right after the
  edit control nor at the start of the anchor. With a sibling after the edit control
  inside the tool bar, \<^verbatim>\<open>insertBefore\<close> throws and no control is attached at all.
\<close>

theorem addExportButton_nested_edit_control:
  "findEdit nestedEditAnchor 0 = Some (Deep False)
   \<and> addExportButton 10 nestedEditAnchor = Inr (nestedEditAnchor @ [exportButton 10])
   \<and> addExportButton 10
        [Element 1 ''div'' [''toolbar''] []
           [Element 2 ''button'' [] [(''aria-label'', ''Edit diagram'')] [],
            Element 4 ''button'' [''copy-code-button''] [] []],
         Element 3 ''code'' [''language-mermaid''] [] [TextNode ''graph TD'']]
      = Inl NotFoundError"
  by code_simp

section \<open>Facts about the document tree\<close>

lemma elements_append: "elements (xs @ ys) = elements xs @ elements ys"
  by (induction xs rule: elements.induct) simp_all

lemma ids_Nil: "ids [] = []"
  by (simp add: ids_def)

lemma ids_Text: "ids (TextNode s # ns) = ids ns"
  by (simp add: ids_def)

lemma ids_Element: "ids (Element i t c a ks # ns) = i # ids ks @ ids ns"
  by (simp add: ids_def)

lemmas ids_simps = ids_Nil ids_Text ids_Element

lemma ids_append: "ids (xs @ ys) = ids xs @ ids ys"
  by (simp add: ids_def elements_append)

lemma elements_are_elements:
  "n \<in> set (elements ns) \<Longrightarrow> \<exists>i t c a ks. n = Element i t c a ks"
  by (induction ns rule: elements.induct) auto


lemma elements_of_children:
  "set (elements (childNodes n)) \<subseteq> set (elements [n])"
  by (cases n) auto





section \<open>Facts about removal\<close>

lemma ids_prune_subset: "set (ids (prune S ns)) \<subseteq> set (ids ns)"
  by (induction S ns rule: prune.induct) (auto simp: ids_simps)


lemma distinct_prune: "distinct (ids ns) \<Longrightarrow> distinct (ids (prune S ns))"
proof (induction S ns rule: prune.induct)
  case (3 S i t c a ks ns)
  then show ?case
    using ids_prune_subset [of S ks] ids_prune_subset [of S ns]
    by (auto simp: ids_simps)
qed (simp_all add: ids_simps)





lemma idOf_pruneNode: "idOf (pruneNode S (Element i t c a ks)) = i"
  by simp



section \<open>Facts about the chain of ancestors\<close>






section \<open>Facts about the body\<close>









section \<open>Facts about the search for the diagram of a control\<close>











section \<open>Facts about the cleanup\<close>




lemma idsWhere_subset_ids: "set (idsWhere P ns) \<subseteq> set (ids ns)"
  by (auto simp: idsWhere_def ids_def)







end
